theory Spec2Isabelle
  imports Main "HOL-Library.Sublist" "HOL-Library.Char_ord" "HOL-Library.List_Lexorder"
begin

section \<open>Python strings\<close>

text \<open>
  A Python \<open>str\<close> is modelled as a \<open>string\<close> whose characters are the code points
  U+0000 .. U+00FF. The two classifications below are those of CPython for that range:
  \<open>str.isspace\<close> (used by \<open>str.strip()\<close>) and the line boundaries of
  \<open>str.splitlines()\<close>. U+001F is white space but no line boundary.
\<close>

definition LF :: char where
  "LF = CHR 0x0A"

definition CR :: char where
  "CR = CHR 0x0D"

definition py_isspace :: "char \<Rightarrow> bool" where
  "py_isspace c \<longleftrightarrow> c \<in> {CHR 0x09, CHR 0x0A, CHR 0x0B, CHR 0x0C, CHR 0x0D,
                           CHR 0x1C, CHR 0x1D, CHR 0x1E, CHR 0x1F, CHR 0x20,
                           CHR 0x85, CHR 0xA0}"

definition is_linebreak :: "char \<Rightarrow> bool" where
  "is_linebreak c \<longleftrightarrow> c \<in> {CHR 0x0A, CHR 0x0B, CHR 0x0C, CHR 0x0D,
                             CHR 0x1C, CHR 0x1D, CHR 0x1E, CHR 0x85}"

text \<open>\<open>s.strip()\<close>: leading and trailing white space removed.\<close>

definition strip :: "string \<Rightarrow> string" where
  "strip s = rev (dropWhile py_isspace (rev (dropWhile py_isspace s)))"

text \<open>\<open>s.startswith(p)\<close>.\<close>

definition startswith :: "string \<Rightarrow> string \<Rightarrow> bool" where
  "startswith s p \<longleftrightarrow> prefix p s"

text \<open>
  \<open>s.splitlines()\<close>: the text up to the next line boundary is a line; the boundary is
  consumed, \<open>CR LF\<close> as one; text after the last boundary is a last line when it is not
  empty.
\<close>

definition after_break :: "string \<Rightarrow> string" where
  "after_break r = (case r of
       [] \<Rightarrow> []
     | c # r' \<Rightarrow> (if c = CR then (case r' of [] \<Rightarrow> [] | d # r'' \<Rightarrow> if d = LF then r'' else r')
                 else r'))"

function splitlines :: "string \<Rightarrow> string list" where
  "splitlines s =
     (if s = [] then []
      else takeWhile (\<lambda>c. \<not> is_linebreak c) s
           # splitlines (after_break (dropWhile (\<lambda>c. \<not> is_linebreak c) s)))"
  by pat_completeness auto

text \<open>\<open>sep.join(xs)\<close>.\<close>

fun join :: "string \<Rightarrow> string list \<Rightarrow> string" where
  "join sep [] = []"
| "join sep [x] = x"
| "join sep (x # y # ys) = x @ sep @ join sep (y # ys)"

text \<open>\<open>str(n)\<close> for an \<open>int\<close>: decimal digits, with a minus sign below zero.\<close>

definition digit :: "nat \<Rightarrow> char" where
  "digit d = char_of (48 + d)"

fun str_nat :: "nat \<Rightarrow> string" where
  "str_nat n = (if n < 10 then [digit n] else str_nat (n div 10) @ [digit (n mod 10)])"

definition str_int :: "int \<Rightarrow> string" where
  "str_int i = (if i < 0 then CHR ''-'' # str_nat (nat (- i)) else str_nat (nat i))"

termination splitlines
proof (relation "measure length")
  show "wf (measure length)" by simp
next
  fix s :: string
  assume s: "s \<noteq> []"
  let ?r = "dropWhile (\<lambda>c. \<not> is_linebreak c) s"
  have shrink: "r \<noteq> [] \<Longrightarrow> length (after_break r) < length r" for r
    by (auto simp: after_break_def split: list.splits)
  show "(after_break ?r, s) \<in> measure length"
  proof (cases "?r = []")
    case True
    have "after_break [] = []" by (simp add: after_break_def)
    with True have "length (after_break ?r) = 0" by (simp only: list.size)
    with s show ?thesis by simp
  next
    case False
    then have "length (after_break ?r) < length ?r" by (rule shrink)
    also have "length ?r \<le> length s" by (rule length_dropWhile_le)
    finally show ?thesis by simp
  qed
qed

declare splitlines.simps [simp del]

text \<open>
  Text-mode reading (\<open>Path.read_text\<close>, \<open>open("r")\<close>) translates \<open>CR LF\<close> and a
  lone \<open>CR\<close> to \<open>LF\<close>.
\<close>

fun universal_newlines :: "string \<Rightarrow> string" where
  "universal_newlines [] = []"
| "universal_newlines [c] = [if c = CR then LF else c]"
| "universal_newlines (c # d # cs) =
     (if c = CR then (if d = LF then LF # universal_newlines cs
                      else LF # universal_newlines (d # cs))
      else c # universal_newlines (d # cs))"

section \<open>Python values, the object store and the world\<close>

text \<open>
  Dictionaries are mutable objects: a value of type \<open>pyval\<close> refers to one by its
  address in the store, a list of dictionaries indexed by address; a new object gets the
  address \<open>length\<close> of the store. A dictionary is an association list in insertion
  order with string keys. The values are the ones a YAML document of scalars and
  mappings produces (\<open>None\<close>, \<open>bool\<close>, \<open>int\<close>, \<open>str\<close>, \<open>dict\<close>); sequences,
  floats, non-string keys, anchors and aliases are outside the model.
\<close>

datatype pyval = PNone | PBool bool | PInt int | PStr string | PDict nat

type_synonym dict = "(string \<times> pyval) list"

text \<open>A parsed YAML document, and what \<open>yaml.safe_dump\<close> serialises.\<close>

datatype yaml = YNull | YBool bool | YInt int | YStr string | YMap "(string \<times> yaml) list"

text \<open>
  The exceptions. \<open>BadRef\<close> (an address outside the store) and \<open>Unmodelled\<close> (a
  cyclic document handed to \<open>safe_dump\<close>) only make the model total.
\<close>

datatype error =
    KeyError string
  | TypeError
  | OSError string
  | YAMLError
  | BuildError string
  | SyntaxError
  | BadRef
  | Unmodelled

text \<open>What \<open>subprocess.run(cmd, check=False)\<close> does: return with an exit status, or raise.\<close>

datatype outcome = Exited int | Raised

text \<open>
  Library code that is not part of the repository is a parameter of the model: the text
  parser and emitter of PyYAML, \<open>str()\<close> of a \<open>dict\<close>, Jinja's renderer for templates
  with tags, the normalising join of \<open>pathlib\<close>, and the outcome of external commands.
\<close>

record pyenv =
  yaml_parse :: "string \<Rightarrow> yaml option"
  yaml_emit :: "yaml \<Rightarrow> string"
  dict_repr :: "dict list \<Rightarrow> nat \<Rightarrow> string"
  jinja_render :: "string \<Rightarrow> dict list \<Rightarrow> pyval \<Rightarrow> string"
  path_join :: "string \<Rightarrow> string \<Rightarrow> string"
  subprocess_run :: "string list \<Rightarrow> outcome"

text \<open>
  The world a request runs in: the object store, the regular files (path to text) with
  their modes, the directories, the paths on which a write, \<open>mkdir\<close> or \<open>chmod\<close>
  fails, and the external commands started so far.
\<close>

record world =
  heap :: "dict list"
  files :: "string \<Rightarrow> string option"
  modes :: "string \<Rightarrow> nat option"
  dirs :: "string set"
  denied :: "string set"
  cmdlog :: "string list list"

text \<open>
  A statement sequence is a function from the world to a result and the world it leaves;
  an exception (\<open>Inl\<close>) keeps the effects made before it.
\<close>

type_synonym 'a prog = "world \<Rightarrow> (error + 'a) \<times> world"

definition ret :: "'a \<Rightarrow> 'a prog" where
  "ret x = (\<lambda>w. (Inr x, w))"

definition raise :: "error \<Rightarrow> 'a prog" where
  "raise e = (\<lambda>w. (Inl e, w))"

definition bnd :: "'a prog \<Rightarrow> ('a \<Rightarrow> 'b prog) \<Rightarrow> 'b prog" where
  "bnd m f = (\<lambda>w. case m w of (Inl e, w') \<Rightarrow> (Inl e, w') | (Inr x, w') \<Rightarrow> f x w')"

subsection \<open>Dictionaries\<close>

text \<open>\<open>d[k] = v\<close> on the association list: replace in place, or append.\<close>

fun dict_set :: "string \<Rightarrow> pyval \<Rightarrow> dict \<Rightarrow> dict" where
  "dict_set k v [] = [(k, v)]"
| "dict_set k v ((k', v') # d) = (if k' = k then (k, v) # d else (k', v') # dict_set k v d)"

text \<open>\<open>v[k]\<close>: \<open>KeyError\<close> on a missing key, \<open>TypeError\<close> when \<open>v\<close> is no dictionary.\<close>

definition subscript :: "pyval \<Rightarrow> string \<Rightarrow> pyval prog" where
  "subscript v k = (\<lambda>w. case v of
       PDict a \<Rightarrow>
         (if a < length (heap w)
          then (case map_of (heap w ! a) k of
                  Some x \<Rightarrow> (Inr x, w)
                | None \<Rightarrow> (Inl (KeyError k), w))
          else (Inl BadRef, w))
     | _ \<Rightarrow> (Inl TypeError, w))"

text \<open>\<open>v[k] = x\<close>.\<close>

definition store_item :: "pyval \<Rightarrow> string \<Rightarrow> pyval \<Rightarrow> unit prog" where
  "store_item v k x = (\<lambda>w. case v of
       PDict a \<Rightarrow>
         (if a < length (heap w)
          then (Inr (), w\<lparr>heap := (heap w)[a := dict_set k x (heap w ! a)]\<rparr>)
          else (Inl BadRef, w))
     | _ \<Rightarrow> (Inl TypeError, w))"

text \<open>\<open>cfg[sec][key]\<close> and \<open>cfg[sec][key] = x\<close>.\<close>

definition subscript2 :: "pyval \<Rightarrow> string \<Rightarrow> string \<Rightarrow> pyval prog" where
  "subscript2 cfg sec key = bnd (subscript cfg sec) (\<lambda>d. subscript d key)"

definition store_item2 :: "pyval \<Rightarrow> string \<Rightarrow> string \<Rightarrow> pyval \<Rightarrow> unit prog" where
  "store_item2 cfg sec key x = bnd (subscript cfg sec) (\<lambda>d. store_item d key x)"

text \<open>\<open>d.copy()\<close>: a new dictionary with the same items (the values are shared).\<close>

definition dict_copy :: "pyval \<Rightarrow> pyval prog" where
  "dict_copy v = (\<lambda>w. case v of
       PDict a \<Rightarrow>
         (if a < length (heap w)
          then (Inr (PDict (length (heap w))), w\<lparr>heap := heap w @ [heap w ! a]\<rparr>)
          else (Inl BadRef, w))
     | _ \<Rightarrow> (Inl TypeError, w))"

text \<open>Truth value of an object, as \<open>if x:\<close> and \<open>not x\<close> take it.\<close>

definition truthy :: "dict list \<Rightarrow> pyval \<Rightarrow> bool" where
  "truthy h v = (case v of
       PNone \<Rightarrow> False
     | PBool b \<Rightarrow> b
     | PInt i \<Rightarrow> i \<noteq> 0
     | PStr s \<Rightarrow> s \<noteq> []
     | PDict a \<Rightarrow> a < length h \<and> h ! a \<noteq> [])"

text \<open>\<open>str(v)\<close>, which is what \<open>{v}\<close> in an f-string inserts.\<close>

definition py_str :: "pyenv \<Rightarrow> dict list \<Rightarrow> pyval \<Rightarrow> string" where
  "py_str env h v = (case v of
       PNone \<Rightarrow> ''None''
     | PBool b \<Rightarrow> (if b then ''True'' else ''False'')
     | PInt i \<Rightarrow> str_int i
     | PStr s \<Rightarrow> s
     | PDict a \<Rightarrow> dict_repr env h a)"

subsection \<open>Files, directories, commands\<close>

definition path_exists :: "string \<Rightarrow> world \<Rightarrow> bool" where
  "path_exists p w \<longleftrightarrow> files w p \<noteq> None \<or> p \<in> dirs w"

definition read_text :: "string \<Rightarrow> string prog" where
  "read_text p = (\<lambda>w. case files w p of
       Some t \<Rightarrow> (Inr (universal_newlines t), w)
     | None \<Rightarrow> (Inl (OSError p), w))"

definition write_text :: "string \<Rightarrow> string \<Rightarrow> unit prog" where
  "write_text p t = (\<lambda>w.
     if p \<in> denied w \<or> p \<in> dirs w then (Inl (OSError p), w)
     else (Inr (), w\<lparr>files := (files w)(p \<mapsto> t)\<rparr>))"

text \<open>\<open>Path(p).mkdir(parents=True, exist_ok=True)\<close>; only \<open>p\<close> itself is recorded.\<close>

definition mkdir_p :: "string \<Rightarrow> unit prog" where
  "mkdir_p p = (\<lambda>w.
     if p \<in> denied w \<or> files w p \<noteq> None then (Inl (OSError p), w)
     else (Inr (), w\<lparr>dirs := insert p (dirs w)\<rparr>))"

definition chmod :: "string \<Rightarrow> nat \<Rightarrow> unit prog" where
  "chmod p m = (\<lambda>w.
     if p \<in> denied w \<or> files w p = None then (Inl (OSError p), w)
     else (Inr (), w\<lparr>modes := (modes w)(p \<mapsto> m)\<rparr>))"

text \<open>
  \<^verbatim>\<open>try: subprocess.run(cmd, check=False)\<close> \<^verbatim>\<open>except Exception: pass\<close>:
  the command is started, its exit status is not looked at and an exception is dropped.
\<close>

definition try_run :: "pyenv \<Rightarrow> string list \<Rightarrow> unit prog" where
  "try_run env cmd = (\<lambda>w. case subprocess_run env cmd of
       Exited _ \<Rightarrow> (Inr (), w\<lparr>cmdlog := cmdlog w @ [cmd]\<rparr>)
     | Raised \<Rightarrow> (Inr (), w\<lparr>cmdlog := cmdlog w @ [cmd]\<rparr>))"

subsection \<open>YAML documents and objects\<close>

text \<open>
  \<open>yaml.safe_load\<close> builds new objects for the parsed document; a mapping is filled
  item by item, so a repeated key keeps its last value.
\<close>

fun alloc :: "yaml \<Rightarrow> dict list \<Rightarrow> pyval \<times> dict list"
  and alloc_items :: "(string \<times> yaml) list \<Rightarrow> dict \<Rightarrow> dict list \<Rightarrow> dict \<times> dict list"
where
  "alloc YNull h = (PNone, h)"
| "alloc (YBool b) h = (PBool b, h)"
| "alloc (YInt i) h = (PInt i, h)"
| "alloc (YStr s) h = (PStr s, h)"
| "alloc (YMap kvs) h = (case alloc_items kvs [] h of (d, h') \<Rightarrow> (PDict (length h'), h' @ [d]))"
| "alloc_items [] d h = (d, h)"
| "alloc_items ((k, y) # kvs) d h =
     (case alloc y h of (v, h') \<Rightarrow> alloc_items kvs (dict_set k v d) h')"

text \<open>
  The document an object denotes, as \<open>yaml.safe_dump\<close> represents it: the items of a
  mapping sorted by key (\<open>sort_keys\<close> is on by default). The first argument bounds the
  nesting depth; with the size of the store it is enough for every acyclic object.
\<close>

fun to_yaml :: "nat \<Rightarrow> dict list \<Rightarrow> pyval \<Rightarrow> yaml option"
  and to_yaml_items :: "nat \<Rightarrow> dict list \<Rightarrow> dict \<Rightarrow> (string \<times> yaml) list option"
where
  "to_yaml n h PNone = Some YNull"
| "to_yaml n h (PBool b) = Some (YBool b)"
| "to_yaml n h (PInt i) = Some (YInt i)"
| "to_yaml n h (PStr s) = Some (YStr s)"
| "to_yaml 0 h (PDict a) = None"
| "to_yaml (Suc n) h (PDict a) =
     (if a < length h then map_option YMap (to_yaml_items n h (sort_key fst (h ! a))) else None)"
| "to_yaml_items n h [] = Some []"
| "to_yaml_items n h ((k, v) # kvs) =
     (case to_yaml n h v of
        None \<Rightarrow> None
      | Some y \<Rightarrow> (case to_yaml_items n h kvs of
                     None \<Rightarrow> None
                   | Some ys \<Rightarrow> Some ((k, y) # ys)))"

definition safe_load :: "pyenv \<Rightarrow> string \<Rightarrow> pyval prog" where
  "safe_load env text = (\<lambda>w. case yaml_parse env text of
       None \<Rightarrow> (Inl YAMLError, w)
     | Some y \<Rightarrow> (case alloc y (heap w) of (v, h') \<Rightarrow> (Inr v, w\<lparr>heap := h'\<rparr>)))"

definition safe_dump :: "pyenv \<Rightarrow> pyval \<Rightarrow> string \<Rightarrow> unit prog" where
  "safe_dump env v p = (\<lambda>w. case to_yaml (length (heap w)) (heap w) v of
       None \<Rightarrow> (Inl Unmodelled, w)
     | Some y \<Rightarrow> write_text p (yaml_emit env y) w)"

section \<open>The program\<close>

subsection \<open>Config store\<close>

definition CONFIG_PATH :: string where
  "CONFIG_PATH = ''/opt/lustylibrary-installer/config.yml''"

definition CONFIG_DIR :: string where
  "CONFIG_DIR = ''/opt/lustylibrary-installer''"

text \<open>
  The module-level \<open>DEFAULT_CONFIG\<close>: evaluating the literal creates the four section
  dictionaries (addresses 0 to 3) and then the outer one (address 4).
\<close>

definition module_heap :: "dict list" where
  "module_heap =
     [ [(''ssid'', PStr ''LustyLibrary''),
        (''password'', PStr ''lustybooks123''),
        (''ip'', PStr ''10.10.10.10'')],
       [(''media_root'', PStr ''/mnt/media'')],
       [(''install_audiobookshelf'', PBool True),
        (''install_calibre_web'', PBool True)],
       [(''enable_sync'', PBool False),
        (''unraid_ip'', PStr ''192.168.0.139''),
        (''share_path_audio'', PStr ''/data/media/audiobook''),
        (''share_path_books'', PStr ''/data/media/calibre'')],
       [(''wifi'', PDict 0), (''storage'', PDict 1), (''apps'', PDict 2), (''sync'', PDict 3)] ]"

definition DEFAULT_CONFIG :: pyval where
  "DEFAULT_CONFIG = PDict 4"

definition load_config :: "pyenv \<Rightarrow> pyval prog" where
  "load_config env = (\<lambda>w.
     if path_exists CONFIG_PATH w
     then bnd (read_text CONFIG_PATH) (\<lambda>text. safe_load env text) w
     else dict_copy DEFAULT_CONFIG w)"

text \<open>\<open>open("w")\<close> truncates the file before \<open>safe_dump\<close> writes to it.\<close>

definition save_config :: "pyenv \<Rightarrow> pyval \<Rightarrow> unit prog" where
  "save_config env cfg =
     bnd (mkdir_p CONFIG_DIR) (\<lambda>_.
     bnd (write_text CONFIG_PATH []) (\<lambda>_.
     safe_dump env cfg CONFIG_PATH))"

subsection \<open>Orchestration manifest\<close>

definition compose_dir :: string where
  "compose_dir = ''/home/pi/library-server''"

definition compose_file :: string where
  "compose_file = ''/home/pi/library-server/docker-compose.yml''"

definition compose_lines :: "string \<Rightarrow> bool \<Rightarrow> bool \<Rightarrow> string list" where
  \<open>compose_lines media_root install_abs install_cweb =
     [ ''version: "3.8"'',
       '''',
       ''services:'' ]
     @ (if install_abs then
         [ ''  audiobookshelf:'',
           ''    image: ghcr.io/advplyr/audiobookshelf:latest'',
           ''    container_name: audiobookshelf'',
           ''    ports:'',
           ''      - "13378:80"'',
           ''    environment:'',
           ''      - TZ=America/Chicago'',
           ''      - AUDIOBOOKSHELF_DISABLE_UPDATES=true'',
           ''    volumes:'',
           ''      - '' @ media_root @ ''/audiobooks:/audiobooks'',
           ''      - '' @ media_root @ ''/config/audiobookshelf:/config'',
           ''    restart: unless-stopped'',
           '''' ]
        else [])
     @ (if install_cweb then
         [ ''  calibre-web:'',
           ''    image: lscr.io/linuxserver/calibre-web:latest'',
           ''    container_name: calibre-web'',
           ''    ports:'',
           ''      - "8083:8083"'',
           ''    environment:'',
           ''      - PUID=1000'',
           ''      - PGID=1000'',
           ''      - TZ=America/Chicago'',
           ''    volumes:'',
           ''      - '' @ media_root @ ''/books:/books'',
           ''      - '' @ media_root @ ''/config/calibre:/config'',
           ''    restart: unless-stopped'',
           '''' ]
        else [])\<close>

text \<open>\<open>Path(media_root, sub)\<close> raises \<open>TypeError\<close> unless \<open>media_root\<close> is a \<open>str\<close>.\<close>

definition make_subdir :: "pyenv \<Rightarrow> pyval \<Rightarrow> string \<Rightarrow> unit prog" where
  "make_subdir env media_root sub = (case media_root of
       PStr r \<Rightarrow> mkdir_p (path_join env r sub)
     | _ \<Rightarrow> raise TypeError)"

definition generate_docker_compose :: "pyenv \<Rightarrow> pyval \<Rightarrow> string prog" where
  "generate_docker_compose env cfg =
     bnd (subscript2 cfg ''storage'' ''media_root'') (\<lambda>media_root.
     bnd (subscript2 cfg ''apps'' ''install_audiobookshelf'') (\<lambda>install_abs.
     bnd (subscript2 cfg ''apps'' ''install_calibre_web'') (\<lambda>install_cweb.
     (\<lambda>w.
       (bnd (mkdir_p compose_dir) (\<lambda>_.
        bnd (write_text compose_file
               (join [LF] (compose_lines (py_str env (heap w) media_root)
                                         (truthy (heap w) install_abs)
                                         (truthy (heap w) install_cweb)))) (\<lambda>_.
        bnd (make_subdir env media_root ''audiobooks'') (\<lambda>_.
        bnd (make_subdir env media_root ''books'') (\<lambda>_.
        bnd (make_subdir env media_root ''config'') (\<lambda>_.
        ret compose_file)))))) w))))"

subsection \<open>Network configuration\<close>

definition hostapd_conf :: string where
  "hostapd_conf = ''/etc/hostapd/hostapd.conf''"

definition dhcpcd :: string where
  "dhcpcd = ''/etc/dhcpcd.conf''"

definition hostapd_line :: "string \<Rightarrow> string \<Rightarrow> string \<Rightarrow> string" where
  "hostapd_line ssid password line =
     (if startswith line ''ssid='' then ''ssid='' @ ssid
      else if startswith line ''wpa_passphrase='' then ''wpa_passphrase='' @ password
      else line)"

definition rewrite_hostapd :: "string \<Rightarrow> string \<Rightarrow> string \<Rightarrow> string" where
  "rewrite_hostapd ssid password text =
     join [LF] (map (hostapd_line ssid password) (splitlines text))"

definition wlan0_block :: "string \<Rightarrow> string" where
  "wlan0_block ip =
     [LF] @ ''interface wlan0'' @ [LF]
     @ ''  static ip_address='' @ ip @ ''/24'' @ [LF]
     @ ''  nohook wpa_supplicant'' @ [LF]"

text \<open>The loop over the lines of \<open>dhcpcd.conf\<close>, with its flag \<open>skip\<close>.\<close>

fun drop_wlan0 :: "bool \<Rightarrow> string list \<Rightarrow> string list" where
  "drop_wlan0 skip [] = []"
| "drop_wlan0 skip (line # rest) =
     (if startswith line ''interface wlan0'' then drop_wlan0 True rest
      else (let skip' = (if skip \<and> startswith line ''interface '' then False else skip)
            in if \<not> skip' then line # drop_wlan0 skip' rest else drop_wlan0 skip' rest))"

definition rewrite_dhcpcd :: "string \<Rightarrow> string \<Rightarrow> string" where
  "rewrite_dhcpcd ip text = join [LF] (drop_wlan0 False (splitlines text)) @ wlan0_block ip"

definition apply_wifi_config :: "pyenv \<Rightarrow> pyval \<Rightarrow> unit prog" where
  "apply_wifi_config env cfg =
     bnd (subscript2 cfg ''wifi'' ''ssid'') (\<lambda>ssid.
     bnd (subscript2 cfg ''wifi'' ''password'') (\<lambda>password.
     bnd (subscript2 cfg ''wifi'' ''ip'') (\<lambda>ip.
     bnd (\<lambda>w.
            if path_exists hostapd_conf w
            then (bnd (read_text hostapd_conf) (\<lambda>text.
                  bnd (write_text hostapd_conf
                         (rewrite_hostapd (py_str env (heap w) ssid)
                                          (py_str env (heap w) password) text)) (\<lambda>_.
                  try_run env [''systemctl'', ''restart'', ''hostapd'']))) w
            else (Inr (), w)) (\<lambda>_.
     (\<lambda>w.
        if path_exists dhcpcd w
        then (bnd (read_text dhcpcd) (\<lambda>text.
              bnd (write_text dhcpcd (rewrite_dhcpcd (py_str env (heap w) ip) text)) (\<lambda>_.
              try_run env [''systemctl'', ''restart'', ''dhcpcd'']))) w
        else (Inr (), w))))))"

subsection \<open>Sync script\<close>

definition script_path :: string where
  "script_path = ''/usr/local/bin/sync_from_unraid.sh''"

text \<open>
  The script of the f-string, line by line, each line ended by \<open>LF\<close>. The two characters
  above U+00FF in its banner lines are written as their UTF-8 bytes.
\<close>

definition sync_script :: "string \<Rightarrow> string \<Rightarrow> string \<Rightarrow> string \<Rightarrow> string" where
  \<open>sync_script media_root unraid_ip share_audio share_books =
     concat (map (\<lambda>l. l @ [LF])
     [''#!/bin/bash'',
      ''set -euo pipefail'',
      '''',
      ''UNRAID_IP="'' @ unraid_ip @ ''"'',
      ''UNRAID_SHARE="//'' @ unraid_ip @ ''/data"'',
      ''MOUNT_POINT="/mnt/unraid_data"'',
      '''',
      ''SRC_AUDIO="${MOUNT_POINT}'' @ share_audio @ ''"'',
      ''SRC_BOOKS="${MOUNT_POINT}'' @ share_books @ ''"'',
      '''',
      ''DST_AUDIO="'' @ media_root @ ''/audiobooks/"'',
      ''DST_BOOKS="'' @ media_root @ ''/books/"'',
      '''',
      ''CIFS_OPTS="guest,vers=3.0,iocharset=utf8,noperm,uid=1000,gid=1000"'',
      '''',
      ''LOG="/var/log/sync_from_unraid.log"'',
      ''LOCK="/run/sync_from_unraid.lock"'',
      ''FLAG="/tmp/sync_in_progress"'',
      '''',
      ''CARRIER_FILE="/sys/class/net/eth0/carrier"'',
      ''if [[ ! -f "$CARRIER_FILE" ]] || [[ "$(cat "$CARRIER_FILE" 2>/dev/null)" != "1" ]]; then'',
      ''  exit 0'',
      ''fi'',
      '''',
      ''exec 9>"$LOCK" || true'',
      ''flock -n 9 || exit 0'',
      '''',
      ''{'',
      ''  touch "$FLAG"'',
      ''  echo'',
      ''  echo "==== $(date '+%F %T') '' @ [CHR 0xE2] @ [CHR 0xE2, CHR 0x82, CHR 0xAC] @ [CHR 0xE2, CHR 0x80, CHR 0x9D] @ '' sync start ===="'',
      '''',
      ''  for i in {1..5}; do'',
      ''    if ping -c1 -W1 "$UNRAID_IP" >/dev/null 2>&1; then'',
      ''      break'',
      ''    fi'',
      ''    sleep 3'',
      ''  done'',
      '''',
      ''  if ! mountpoint -q "$MOUNT_POINT"; then'',
      ''    echo "Mounting $UNRAID_SHARE -> $MOUNT_POINT"'',
      ''    mkdir -p "$MOUNT_POINT"'',
      ''    mount -t cifs "$UNRAID_SHARE" "$MOUNT_POINT" -o "$CIFS_OPTS" || {'',
      ''      echo "ERROR: mount failed"'',
      ''      rm -f "$FLAG"'',
      ''      exit 0'',
      ''    }'',
      ''  fi'',
      '''',
      ''  mkdir -p "$DST_AUDIO" "$DST_BOOKS"'',
      '''',
      ''  echo "Syncing Audiobooks..."'',
      ''  rsync -av --ignore-existing "$SRC_AUDIO" "$DST_AUDIO" || true'',
      '''',
      ''  echo "Syncing Calibre books..."'',
      ''  rsync -av --ignore-existing "$SRC_BOOKS" "$DST_BOOKS" || true'',
      '''',
      ''  if mountpoint -q "$MOUNT_POINT"; then'',
      ''    echo "Unmounting $MOUNT_POINT"'',
      ''    umount "$MOUNT_POINT" || true'',
      ''  fi'',
      '''',
      ''  rm -f "$FLAG"'',
      ''  echo "==== $(date '+%F %T') '' @ [CHR 0xE2] @ [CHR 0xE2, CHR 0x82, CHR 0xAC] @ [CHR 0xE2, CHR 0x80, CHR 0x9D] @ '' sync done ===="'',
      ''} >>"$LOG" 2>&1''])\<close>

text \<open>\<open>0o755\<close> is 493.\<close>

definition apply_sync_config :: "pyenv \<Rightarrow> pyval \<Rightarrow> unit prog" where
  "apply_sync_config env cfg =
     bnd (subscript2 cfg ''sync'' ''enable_sync'') (\<lambda>enable_sync.
     (\<lambda>w.
        if \<not> truthy (heap w) enable_sync then (Inr (), w)
        else
          (bnd (subscript2 cfg ''storage'' ''media_root'') (\<lambda>media_root.
           bnd (subscript2 cfg ''sync'' ''unraid_ip'') (\<lambda>unraid_ip.
           bnd (subscript2 cfg ''sync'' ''share_path_audio'') (\<lambda>share_audio.
           bnd (subscript2 cfg ''sync'' ''share_path_books'') (\<lambda>share_books.
           bnd (write_text script_path
                  (sync_script (py_str env (heap w) media_root)
                               (py_str env (heap w) unraid_ip)
                               (py_str env (heap w) share_audio)
                               (py_str env (heap w) share_books))) (\<lambda>_.
           chmod script_path 493)))))) w))"

subsection \<open>Web form controller\<close>

datatype http_method = GET | POST

datatype response = Redirect string | Html string | NotFound | MethodNotAllowed | ServerError

text \<open>\<open>request.form\<close>: the submitted fields in order; \<open>get\<close> takes the first value of a key.\<close>

type_synonym form = "(string \<times> string) list"

definition form_get :: "form \<Rightarrow> string \<Rightarrow> string \<Rightarrow> string" where
  "form_get f k d = (case map_of f k of Some v \<Rightarrow> v | None \<Rightarrow> d)"

definition form_has :: "form \<Rightarrow> string \<Rightarrow> bool" where
  "form_has f k \<longleftrightarrow> map_of f k \<noteq> None"

text \<open>
  The template bound to \<open>FORM_TEMPLATE\<close> when \<open>setup\<close> runs is the second assignment
  (line 342); the HTML form assigned first (lines 242 to 340) is overwritten by it.
\<close>

definition FORM_TEMPLATE :: string where
  "FORM_TEMPLATE = ''...''"

text \<open>
  A template without \<open>{{\<close>, \<open>{%\<close> or \<open>{#\<close> that does not end in a newline is rendered
  as it is; any other template is left to the Jinja parameter.
\<close>

fun has_tag :: "string \<Rightarrow> bool" where
  "has_tag (c # d # cs) =
     (c = CHR ''{'' \<and> (d = CHR ''{'' \<or> d = CHR ''%'' \<or> d = CHR ''#'') \<or> has_tag (d # cs))"
| "has_tag _ = False"

definition render_template_string :: "pyenv \<Rightarrow> string \<Rightarrow> pyval \<Rightarrow> string prog" where
  "render_template_string env source cfg = (\<lambda>w.
     if has_tag source \<or> (source \<noteq> [] \<and> last source = LF)
     then (Inr (jinja_render env source (heap w) cfg), w)
     else (Inr source, w))"

text \<open>The routes the decorators register, and \<open>url_for\<close> on them.\<close>

definition url_for :: "string \<Rightarrow> string prog" where
  "url_for endpoint = (case map_of [(''index'', ''/''), (''setup'', ''/setup'')] endpoint of
       Some rule \<Rightarrow> ret rule
     | None \<Rightarrow> raise (BuildError endpoint))"

text \<open>
  \<open>index\<close>. Its only statement, line 346 of the source, is
  \<open>return redirect(url_for("setup")\<close>: the parenthesis of \<open>redirect(\<close> is never closed,
  so the text of this view is not a Python statement and Python answers it with a
  \<open>SyntaxError\<close>. The view is modelled by what the source text does, not by a repaired
  statement; the other functions of the module are well-formed and are modelled as they
  are written.
\<close>

definition index :: "response prog" where
  "index = raise SyntaxError"

text \<open>
  \<open>cfg[sec][key] = request.form.get(name, "").strip() or cfg[sec][key]\<close>: the right-hand
  side is evaluated first, and the stored value is read only when the stripped
  submission is empty.
\<close>

definition text_field :: "form \<Rightarrow> pyval \<Rightarrow> string \<Rightarrow> string \<Rightarrow> string \<Rightarrow> unit prog" where
  "text_field f cfg sec key name =
     bnd (if strip (form_get f name []) \<noteq> [] then ret (PStr (strip (form_get f name [])))
          else subscript2 cfg sec key) (\<lambda>x.
     store_item2 cfg sec key x)"

text \<open>\<open>cfg[sec][key] = name in request.form\<close>.\<close>

definition checkbox :: "form \<Rightarrow> pyval \<Rightarrow> string \<Rightarrow> string \<Rightarrow> string \<Rightarrow> unit prog" where
  "checkbox f cfg sec key name = store_item2 cfg sec key (PBool (form_has f name))"

text \<open>Lines 354 to 369 of \<open>setup\<close>.\<close>

definition merge_form :: "form \<Rightarrow> pyval \<Rightarrow> unit prog" where
  "merge_form f cfg =
     bnd (text_field f cfg ''wifi'' ''ssid'' ''wifi_ssid'') (\<lambda>_.
     bnd (text_field f cfg ''wifi'' ''password'' ''wifi_password'') (\<lambda>_.
     bnd (text_field f cfg ''wifi'' ''ip'' ''wifi_ip'') (\<lambda>_.
     bnd (text_field f cfg ''storage'' ''media_root'' ''media_root'') (\<lambda>_.
     bnd (checkbox f cfg ''apps'' ''install_audiobookshelf'' ''install_audiobookshelf'') (\<lambda>_.
     bnd (checkbox f cfg ''apps'' ''install_calibre_web'' ''install_calibre_web'') (\<lambda>_.
     bnd (checkbox f cfg ''sync'' ''enable_sync'' ''enable_sync'') (\<lambda>_.
     bnd (text_field f cfg ''sync'' ''unraid_ip'' ''unraid_ip'') (\<lambda>_.
     bnd (text_field f cfg ''sync'' ''share_path_audio'' ''share_path_audio'') (\<lambda>_.
     text_field f cfg ''sync'' ''share_path_books'' ''share_path_books'')))))))))"

text \<open>The view \<open>setup\<close> (the name is a keyword of Isabelle, hence the suffix).\<close>

definition setup_view :: "pyenv \<Rightarrow> http_method \<Rightarrow> form \<Rightarrow> response prog" where
  "setup_view env method f =
     bnd (load_config env) (\<lambda>cfg.
     if method = POST then
       bnd (merge_form f cfg) (\<lambda>_.
       bnd (save_config env cfg) (\<lambda>_.
       bnd (apply_wifi_config env cfg) (\<lambda>_.
       bnd (generate_docker_compose env cfg) (\<lambda>compose_path.
       bnd (apply_sync_config env cfg) (\<lambda>_.
       bnd (try_run env [''docker'', ''compose'', ''-f'', compose_path, ''up'', ''-d'', ''--build'']) (\<lambda>_.
       bnd (url_for ''setup'') (\<lambda>url.
       ret (Redirect url))))))))
     else
       bnd (render_template_string env FORM_TEMPLATE cfg) (\<lambda>page. ret (Html page)))"

text \<open>
  The dispatch of the two routes: \<open>/\<close> answers GET, \<open>/setup\<close> answers GET and POST;
  an exception that leaves a view becomes a server error.
\<close>

definition handle :: "pyenv \<Rightarrow> http_method \<Rightarrow> string \<Rightarrow> form \<Rightarrow> world \<Rightarrow> response \<times> world" where
  "handle env method path f w =
     (if path = ''/'' then
        (if method = GET
         then (case index w of (Inl e, w') \<Rightarrow> (ServerError, w') | (Inr r, w') \<Rightarrow> (r, w'))
         else (MethodNotAllowed, w))
      else if path = ''/setup'' then
        (case setup_view env method f w of (Inl e, w') \<Rightarrow> (ServerError, w') | (Inr r, w') \<Rightarrow> (r, w'))
      else (NotFound, w))"

text \<open>The world when the module has been imported and nothing has been written yet.\<close>

definition initial_world :: world where
  "initial_world = \<lparr> heap = module_heap, files = (\<lambda>_. None), modes = (\<lambda>_. None),
                      dirs = {}, denied = {}, cmdlog = [] \<rparr>"

section \<open>Notions the properties are stated with\<close>

text \<open>An environment in which every external command fails to start.\<close>

definition failing_env :: pyenv where
  "failing_env = \<lparr> yaml_parse = (\<lambda>_. None), yaml_emit = (\<lambda>_. []), dict_repr = (\<lambda>_ _. []),
                    jinja_render = (\<lambda>_ _ _. []), path_join = (\<lambda>r s. r @ ''/'' @ s),
                    subprocess_run = (\<lambda>_. Raised) \<rparr>"

text \<open>
  A service entry of the manifest starts at a line indented by exactly two spaces that
  ends in a colon.
\<close>

definition is_service_header :: "string \<Rightarrow> bool" where
  "is_service_header l = (case l of
       c1 # c2 # c3 # rest \<Rightarrow>
         c1 = CHR '' '' \<and> c2 = CHR '' '' \<and> c3 \<noteq> CHR '' '' \<and> last l = CHR '':''
     | _ \<Rightarrow> False)"

definition service_entries :: "string list \<Rightarrow> string list" where
  "service_entries ls = filter is_service_header ls"



text \<open>A string without a line boundary.\<close>

definition unbroken :: "string \<Rightarrow> bool" where
  "unbroken s \<longleftrightarrow> (\<forall>c\<in>set s. \<not> is_linebreak c)"

text \<open>
  The characters of a dotted-quad IPv4 address: a string of decimal digits and dots.
\<close>

definition address_text :: "string \<Rightarrow> bool" where
  "address_text s \<longleftrightarrow> (\<forall>c\<in>set s. c \<in> set ''0123456789.'')"

text \<open>A program that leaves the files as they are.\<close>

definition keeps_files :: "'a prog \<Rightarrow> bool" where
  "keeps_files m \<longleftrightarrow> (\<forall>w. files (snd (m w)) = files w)"

text \<open>The document has the four sections, each a dictionary.\<close>

definition four_sections :: "world \<Rightarrow> pyval \<Rightarrow> bool" where
  "four_sections w cfg \<longleftrightarrow>
     list_all (\<lambda>sec. case fst (subscript cfg sec w) of Inr (PDict a) \<Rightarrow> True | _ \<Rightarrow> False)
       [''wifi'', ''storage'', ''apps'', ''sync'']"

text \<open>
  A config file that holds only an empty \<open>wifi\<close> section, with a parser that knows this
  one text.
\<close>

definition wifi_only_env :: pyenv where
  "wifi_only_env = failing_env
     \<lparr> yaml_parse := (\<lambda>t. if t = ''wifi: {}'' then Some (YMap [(''wifi'', YMap [])]) else None) \<rparr>"

definition wifi_only_world :: world where
  "wifi_only_world = initial_world \<lparr> files := (\<lambda>_. None)(CONFIG_PATH \<mapsto> ''wifi: {}'') \<rparr>"

text \<open>The defaults with the e-book application switched off.\<close>

definition abs_only_world :: world where
  "abs_only_world = initial_world
     \<lparr> heap := module_heap[2 := [(''install_audiobookshelf'', PBool True),
                                   (''install_calibre_web'', PBool False)]] \<rparr>"

text \<open>
  The fields of the form as lines 354 to 369 assign them, in that order: section, key,
  name of the form field, and whether the field is a text input or a checkbox.
\<close>

datatype field_kind = TextField | CheckboxField

type_synonym form_field = "string \<times> string \<times> string \<times> field_kind"

definition form_fields :: "form_field list" where
  "form_fields =
     [ (''wifi'', ''ssid'', ''wifi_ssid'', TextField),
       (''wifi'', ''password'', ''wifi_password'', TextField),
       (''wifi'', ''ip'', ''wifi_ip'', TextField),
       (''storage'', ''media_root'', ''media_root'', TextField),
       (''apps'', ''install_audiobookshelf'', ''install_audiobookshelf'', CheckboxField),
       (''apps'', ''install_calibre_web'', ''install_calibre_web'', CheckboxField),
       (''sync'', ''enable_sync'', ''enable_sync'', CheckboxField),
       (''sync'', ''unraid_ip'', ''unraid_ip'', TextField),
       (''sync'', ''share_path_audio'', ''share_path_audio'', TextField),
       (''sync'', ''share_path_books'', ''share_path_books'', TextField) ]"

definition fsec :: "form_field \<Rightarrow> string" where
  "fsec x = fst x"

definition fkey :: "form_field \<Rightarrow> string" where
  "fkey x = fst (snd x)"

text \<open>One assignment of \<open>merge_form\<close>, and a list of them run in order.\<close>

definition assign :: "form \<Rightarrow> pyval \<Rightarrow> form_field \<Rightarrow> unit prog" where
  "assign f cfg x = (case x of (sec, key, name, kind) \<Rightarrow>
     (case kind of
        TextField \<Rightarrow> text_field f cfg sec key name
      | CheckboxField \<Rightarrow> checkbox f cfg sec key name))"

fun assign_all :: "form \<Rightarrow> pyval \<Rightarrow> form_field list \<Rightarrow> unit prog" where
  "assign_all f cfg [] = ret ()"
| "assign_all f cfg (x # xs) = bnd (assign f cfg x) (\<lambda>_. assign_all f cfg xs)"

text \<open>What \<open>cfg[sec]\<close> and \<open>cfg[sec][key]\<close> evaluate to in a world.\<close>

definition section_at :: "world \<Rightarrow> pyval \<Rightarrow> string \<Rightarrow> error + pyval" where
  "section_at w cfg sec = fst (subscript cfg sec w)"

definition field :: "world \<Rightarrow> pyval \<Rightarrow> string \<Rightarrow> string \<Rightarrow> error + pyval" where
  "field w cfg sec key = fst (subscript2 cfg sec key w)"

text \<open>
  The value a field is to hold after the merge: the trimmed submission when it is not
  empty and else the stored value, for a text field; whether the name was submitted, for
  a checkbox.
\<close>

definition merged_value :: "form \<Rightarrow> world \<Rightarrow> pyval \<Rightarrow> form_field \<Rightarrow> error + pyval" where
  "merged_value f w cfg x = (case x of (sec, key, name, kind) \<Rightarrow>
     (case kind of
        TextField \<Rightarrow>
          (if strip (form_get f name []) \<noteq> [] then Inr (PStr (strip (form_get f name [])))
           else field w cfg sec key)
      | CheckboxField \<Rightarrow> Inr (PBool (form_has f name))))"

text \<open>A program that leaves the object store as it is.\<close>

definition keeps_heap :: "'a prog \<Rightarrow> bool" where
  "keeps_heap m \<longleftrightarrow> (\<forall>w. heap (snd (m w)) = heap w)"

text \<open>Lines 371 to 384 of the view: what a POST does after the merge.\<close>

definition apply_and_redirect :: "pyenv \<Rightarrow> pyval \<Rightarrow> response prog" where
  "apply_and_redirect env cfg =
     bnd (save_config env cfg) (\<lambda>_.
     bnd (apply_wifi_config env cfg) (\<lambda>_.
     bnd (generate_docker_compose env cfg) (\<lambda>compose_path.
     bnd (apply_sync_config env cfg) (\<lambda>_.
     bnd (try_run env [''docker'', ''compose'', ''-f'', compose_path, ''up'', ''-d'', ''--build'']) (\<lambda>_.
     bnd (url_for ''setup'') (\<lambda>url.
     ret (Redirect url)))))))"

text \<open>A world in which both network configuration files exist.\<close>

definition appliance_world :: world where
  "appliance_world = initial_world
     \<lparr> files := (\<lambda>_. None)
          (hostapd_conf \<mapsto> ''ssid=old'' @ [LF] @ ''wpa_passphrase=oldpass'' @ [LF],
           dhcpcd \<mapsto> ''hostname pi'' @ [LF]) \<rparr>"

text \<open>Every external command returns the exit status 1.\<close>

definition exit_one :: "string list \<Rightarrow> outcome" where
  "exit_one cmd = Exited 1"

text \<open>A world in which the directory of the config file cannot be created.\<close>

definition readonly_world :: world where
  "readonly_world = initial_world \<lparr> denied := {CONFIG_DIR} \<rparr>"

text \<open>A submission that sets the SSID only.\<close>

definition guest_form :: form where
  "guest_form = [(''wifi_ssid'', ''Guest'')]"








section \<open>Reading the store changes nothing\<close>

lemma subscript_world: "snd (subscript v k w) = w"
  by (simp add: subscript_def split: pyval.splits option.splits)

lemma subscript2_world: "snd (subscript2 cfg sec key w) = w"
  by (simp add: subscript2_def bnd_def subscript_def
      split: pyval.splits option.splits prod.splits sum.splits)

lemma subscript2_eq: "fst (subscript2 cfg sec key w) = r \<Longrightarrow> subscript2 cfg sec key w = (r, w)"
  using subscript2_world [of cfg sec key w] by (cases "subscript2 cfg sec key w") simp

section \<open>Loading without a config file\<close>

lemma load_no_file:
  "\<not> path_exists CONFIG_PATH w \<Longrightarrow> load_config env w = dict_copy DEFAULT_CONFIG w"
  by (simp add: load_config_def)

lemma initial_no_config: "\<not> path_exists CONFIG_PATH initial_world"
  by (simp add: path_exists_def initial_world_def)

lemma load_initial:
  "load_config env initial_world =
     (Inr (PDict 5), initial_world\<lparr>heap := module_heap @ [module_heap ! 4]\<rparr>)"
proof -
  have "load_config env initial_world = dict_copy DEFAULT_CONFIG initial_world"
    using initial_no_config by (rule load_no_file)
  also have "\<dots> = (Inr (PDict 5), initial_world\<lparr>heap := module_heap @ [module_heap ! 4]\<rparr>)"
    by (simp add: dict_copy_def DEFAULT_CONFIG_def initial_world_def module_heap_def)
  finally show ?thesis .
qed

section \<open>The routes\<close>

text \<open>
  C3: every GET request to \<open>/\<close> should be answered with a redirect to \<open>/setup\<close>. The
  view that is to do it does not parse (line 346), so a GET request to \<open>/\<close> ends in
  the syntax error and never in the redirect, for every form and every world.
\<close>

theorem index_is_a_syntax_error:
  "fst (index w) = Inl SyntaxError \<and> handle env GET ''/'' f w = (ServerError, w)"
  by (simp add: handle_def index_def raise_def)

lemma setup_get:
  "setup_view env GET f w =
     (case load_config env w of
        (Inl e, w') \<Rightarrow> (Inl e, w')
      | (Inr cfg, w') \<Rightarrow> (Inr (Html ''...''), w'))"
  by (simp add: setup_view_def bnd_def render_template_string_def FORM_TEMPLATE_def ret_def LF_def
      split: prod.splits sum.splits)

text \<open>
  C2: a GET request to \<open>/setup\<close> should return the form filled with the current values.
  With the template that is bound when the view runs, the page is the three characters
  \<open>...\<close>: on the freshly imported module, where the document is the defaults, the
  response holds no input field and none of the values.
\<close>

theorem get_renders_placeholder:
  "fst (setup_view env GET f initial_world) = Inr (Html ''...'')"
  by (simp add: setup_get load_initial)

section \<open>Sync script writer\<close>

text \<open>
  C9: for every document whose \<open>sync.enable_sync\<close> is false, the sync script writer
  returns without any effect: the world after it is the world before it, so no script is
  created and a script already at the fixed path keeps its content and its mode.
\<close>

theorem sync_disabled_no_write:
  assumes "fst (subscript2 cfg ''sync'' ''enable_sync'' w) = Inr (PBool False)"
  shows "apply_sync_config env cfg w = (Inr (), w)"
proof -
  from assms have "subscript2 cfg ''sync'' ''enable_sync'' w = (Inr (PBool False), w)"
    by (rule subscript2_eq)
  then show ?thesis
    by (simp add: apply_sync_config_def bnd_def truthy_def)
qed

theorem sync_disabled_no_write_witness:
  "apply_sync_config failing_env DEFAULT_CONFIG initial_world = (Inr (), initial_world)"
proof -
  have "fst (subscript2 DEFAULT_CONFIG ''sync'' ''enable_sync'' initial_world) = Inr (PBool False)"
    by (simp add: subscript2_def subscript_def bnd_def DEFAULT_CONFIG_def initial_world_def
        module_heap_def)
  then show ?thesis by (rule sync_disabled_no_write)
qed

section \<open>Rewriting the static-IP configuration\<close>

lemma splitlines_Nil: "splitlines [] = []"
  by (simp add: splitlines.simps)


lemma splitlines_line: 
  assumes "unbroken x"
  shows "splitlines (x @ LF # rest) = x # splitlines rest"
proof -
  have lf: "is_linebreak LF" by (simp add: is_linebreak_def LF_def)
  from assms have all: "\<And>c. c \<in> set x \<Longrightarrow> \<not> is_linebreak c" by (simp add: unbroken_def)
  have t: "takeWhile (\<lambda>c. \<not> is_linebreak c) (x @ LF # rest) = x"
    using all lf by (simp add: takeWhile_append2)
  have d: "dropWhile (\<lambda>c. \<not> is_linebreak c) (x @ LF # rest) = LF # rest"
    using all lf by (simp add: dropWhile_append2)
  have a: "after_break (LF # rest) = rest" by (simp add: after_break_def LF_def CR_def)
  show ?thesis
    by (subst splitlines.simps) (simp add: t d a)
qed







lemma unbroken_append: "unbroken (a @ b) \<longleftrightarrow> unbroken a \<and> unbroken b"
  by (auto simp: unbroken_def)


lemma address_char: "c \<in> set ''0123456789.'' \<Longrightarrow> \<not> is_linebreak c"
  by (simp add: is_linebreak_def) blast

lemma address_text_unbroken: "address_text s \<Longrightarrow> unbroken s"
  unfolding address_text_def unbroken_def using address_char by blast



section \<open>Sequencing, and programs that keep the files\<close>

lemma bnd_Inr:
  "bnd m f w = (Inr y, w') \<longleftrightarrow> (\<exists>x w1. m w = (Inr x, w1) \<and> f x w1 = (Inr y, w'))"
  by (auto simp: bnd_def split: prod.splits sum.splits)

lemma bnd_subscript2:
  "bnd (subscript2 cfg sec key) f w =
     (case fst (subscript2 cfg sec key w) of Inl e \<Rightarrow> (Inl e, w) | Inr x \<Rightarrow> f x w)"
  using subscript2_world [of cfg sec key w]
  by (cases "subscript2 cfg sec key w") (auto simp: bnd_def split: sum.splits)

lemma keeps_files_bnd: "keeps_files m \<Longrightarrow> (\<And>x. keeps_files (f x)) \<Longrightarrow> keeps_files (bnd m f)"
  by (auto simp: keeps_files_def bnd_def split: prod.splits sum.splits) (metis snd_conv)+

lemma keeps_files_ret: "keeps_files (ret x)"
  by (simp add: keeps_files_def ret_def)

lemma keeps_files_raise: "keeps_files (raise e)"
  by (simp add: keeps_files_def raise_def)

lemma keeps_files_mkdir_p: "keeps_files (mkdir_p p)"
  by (simp add: keeps_files_def mkdir_p_def)

lemma keeps_files_make_subdir: "keeps_files (make_subdir env v s)"
  by (cases v) (simp_all add: make_subdir_def keeps_files_raise keeps_files_mkdir_p)

lemma keeps_filesD: "keeps_files m \<Longrightarrow> m w = (r, w') \<Longrightarrow> files w' = files w"
  by (auto simp: keeps_files_def dest: spec [of _ w])

lemma write_text_Inr:
  "write_text p t w = (Inr u, w') \<Longrightarrow> files w' p = Some t"
  by (auto simp: write_text_def split: if_splits)

section \<open>The manifest\<close>

lemma splitlines_single:
  assumes "unbroken x" and "x \<noteq> []"
  shows "splitlines x = [x]"
proof -
  from assms(1) have all: "\<And>c. c \<in> set x \<Longrightarrow> \<not> is_linebreak c" by (simp add: unbroken_def)
  then have t: "takeWhile (\<lambda>c. \<not> is_linebreak c) x = x" by (simp add: takeWhile_eq_all_conv)
  from all have d: "dropWhile (\<lambda>c. \<not> is_linebreak c) x = []" by (simp add: dropWhile_eq_Nil_conv)
  have a: "after_break [] = []" by (simp add: after_break_def)
  from assms(2) show ?thesis
    by (subst splitlines.simps) (simp add: t d a splitlines_Nil)
qed

lemma nonempty_lines_of_join:
  assumes "\<forall>x\<in>set xs. unbroken x"
  shows "filter (\<lambda>l. l \<noteq> []) (splitlines (join [LF] xs)) = filter (\<lambda>l. l \<noteq> []) xs"
  using assms
proof (induction "[LF]" xs rule: join.induct)
  case 1
  show ?case by (simp add: splitlines_Nil)
next
  case (2 x)
  show ?case
  proof (cases "x = []")
    case True
    then show ?thesis by (simp add: splitlines_Nil)
  next
    case False
    with 2 have "splitlines x = [x]" by (simp add: splitlines_single)
    with False show ?thesis by simp
  qed
next
  case (3 x y ys)
  then have ux: "unbroken x" by simp
  from 3 have ih: "filter (\<lambda>l. l \<noteq> []) (splitlines (join [LF] (y # ys)))
                    = filter (\<lambda>l. l \<noteq> []) (y # ys)" by simp
  have "splitlines (join [LF] (x # y # ys)) = x # splitlines (join [LF] (y # ys))"
    using splitlines_line [OF ux, of "join [LF] (y # ys)"] by simp
  with ih show ?case by simp
qed

lemma service_entries_nonempty:
  "service_entries (filter (\<lambda>l. l \<noteq> []) ls) = service_entries ls"
  by (induction ls) (auto simp: service_entries_def is_service_header_def)

lemma service_entries_of_text:
  assumes "\<forall>x\<in>set xs. unbroken x"
  shows "service_entries (splitlines (join [LF] xs)) = service_entries xs"
proof -
  have "service_entries (splitlines (join [LF] xs))
          = service_entries (filter (\<lambda>l. l \<noteq> []) (splitlines (join [LF] xs)))"
    by (simp add: service_entries_nonempty)
  also have "\<dots> = service_entries (filter (\<lambda>l. l \<noteq> []) xs)"
    by (simp add: nonempty_lines_of_join [OF assms])
  also have "\<dots> = service_entries xs" by (rule service_entries_nonempty)
  finally show ?thesis .
qed

lemma fixed_lines_unbroken:
  \<open>list_all unbroken
     [ ''version: "3.8"'', '''', ''services:'',
       ''  audiobookshelf:'', ''    image: ghcr.io/advplyr/audiobookshelf:latest'',
       ''    container_name: audiobookshelf'', ''    ports:'', ''      - "13378:80"'',
       ''    environment:'', ''      - TZ=America/Chicago'',
       ''      - AUDIOBOOKSHELF_DISABLE_UPDATES=true'', ''    volumes:'',
       ''      - '', ''/audiobooks:/audiobooks'', ''/config/audiobookshelf:/config'',
       ''    restart: unless-stopped'',
       ''  calibre-web:'', ''    image: lscr.io/linuxserver/calibre-web:latest'',
       ''    container_name: calibre-web'', ''      - "8083:8083"'',
       ''      - PUID=1000'', ''      - PGID=1000'',
       ''/books:/books'', ''/config/calibre:/config'' ]\<close>
  unfolding unbroken_def by code_simp

lemma unbroken_Cons: "unbroken (c # s) \<longleftrightarrow> \<not> is_linebreak c \<and> unbroken s"
  by (simp add: unbroken_def)

lemma compose_lines_unbroken:
  assumes "unbroken r"
  shows "\<forall>x\<in>set (compose_lines r a c). unbroken x"
  using assms fixed_lines_unbroken
  by (cases a; cases c)
     (simp_all add: compose_lines_def unbroken_append unbroken_Cons is_linebreak_def)

text \<open>
  C6: whenever the generator returns, the manifest file holds exactly the generated lines
  joined by newlines, and the service entries among these lines are the audiobook entry
  when its flag is true, followed by the e-book entry when its flag is true. When the
  media root holds no line boundary, the same is true of the lines of the written text
  itself. So with the flags true and false the manifest has exactly one service entry,
  the audiobook one; with both true the audiobook entry comes first; and an entry whose
  flag is false is absent.
\<close>

theorem manifest_service_entries:
  assumes run: "generate_docker_compose env cfg w = (Inr p, w')"
    and root: "fst (subscript2 cfg ''storage'' ''media_root'' w) = Inr root"
    and a: "fst (subscript2 cfg ''apps'' ''install_audiobookshelf'' w) = Inr (PBool a)"
    and c: "fst (subscript2 cfg ''apps'' ''install_calibre_web'' w) = Inr (PBool c)"
  shows "files w' compose_file
           = Some (join [LF] (compose_lines (py_str env (heap w) root) a c))
       \<and> service_entries (compose_lines (py_str env (heap w) root) a c)
           = (if a then [''  audiobookshelf:''] else []) @ (if c then [''  calibre-web:''] else [])
       \<and> (unbroken (py_str env (heap w) root) \<longrightarrow>
            service_entries (splitlines (join [LF] (compose_lines (py_str env (heap w) root) a c)))
              = (if a then [''  audiobookshelf:''] else []) @ (if c then [''  calibre-web:''] else []))"
proof -
  let ?dirs = "bnd (make_subdir env root ''audiobooks'') (\<lambda>_.
               bnd (make_subdir env root ''books'') (\<lambda>_.
               bnd (make_subdir env root ''config'') (\<lambda>_. ret compose_file)))"
  let ?ls = "compose_lines (py_str env (heap w) root) a c"
  have ta: "truthy (heap w) (PBool a) = a" and tc: "truthy (heap w) (PBool c) = c"
    by (simp_all add: truthy_def)
  from run root a c ta tc have
    tail: "bnd (mkdir_p compose_dir) (\<lambda>_.
           bnd (write_text compose_file (join [LF] ?ls)) (\<lambda>_. ?dirs)) w = (Inr p, w')"
    by (simp add: generate_docker_compose_def bnd_subscript2)
  from tail obtain w1 w2 where
    "write_text compose_file (join [LF] ?ls) w1 = (Inr (), w2)" and rest: "?dirs w2 = (Inr p, w')"
    by (auto simp: bnd_Inr)
  then have "files w2 compose_file = Some (join [LF] ?ls)" by (auto dest: write_text_Inr)
  moreover have "keeps_files ?dirs"
    by (intro keeps_files_bnd keeps_files_make_subdir keeps_files_ret)
  then have "files w' = files w2" using rest by (rule keeps_filesD)
  ultimately have written: "files w' compose_file = Some (join [LF] ?ls)" by simp
  have entries: "service_entries ?ls =
      (if a then [''  audiobookshelf:''] else []) @ (if c then [''  calibre-web:''] else [])"
    by (simp add: service_entries_def compose_lines_def is_service_header_def)
  have "service_entries (splitlines (join [LF] ?ls)) = service_entries ?ls"
    if "unbroken (py_str env (heap w) root)"
    using compose_lines_unbroken [OF that] by (rule service_entries_of_text)
  with written entries show ?thesis by simp
qed

theorem manifest_service_entries_witness:
  "files (snd (generate_docker_compose failing_env DEFAULT_CONFIG abs_only_world)) compose_file
     = Some (join [LF] (compose_lines ''/mnt/media'' True False))
   \<and> unbroken ''/mnt/media''
   \<and> service_entries (splitlines (join [LF] (compose_lines ''/mnt/media'' True False)))
       = [''  audiobookshelf:'']"
proof -
  let ?w = abs_only_world
  have run: "fst (generate_docker_compose failing_env DEFAULT_CONFIG ?w) = Inr compose_file"
    by (simp add: generate_docker_compose_def bnd_def subscript2_def subscript_def
        DEFAULT_CONFIG_def abs_only_world_def initial_world_def module_heap_def mkdir_p_def
        write_text_def make_subdir_def failing_env_def ret_def compose_dir_def compose_file_def)
  have r: "fst (subscript2 DEFAULT_CONFIG ''storage'' ''media_root'' ?w) = Inr (PStr ''/mnt/media'')"
    by (simp add: subscript2_def subscript_def bnd_def DEFAULT_CONFIG_def abs_only_world_def
        initial_world_def module_heap_def)
  have a: "fst (subscript2 DEFAULT_CONFIG ''apps'' ''install_audiobookshelf'' ?w) = Inr (PBool True)"
    by (simp add: subscript2_def subscript_def bnd_def DEFAULT_CONFIG_def abs_only_world_def
        initial_world_def module_heap_def)
  have c: "fst (subscript2 DEFAULT_CONFIG ''apps'' ''install_calibre_web'' ?w) = Inr (PBool False)"
    by (simp add: subscript2_def subscript_def bnd_def DEFAULT_CONFIG_def abs_only_world_def
        initial_world_def module_heap_def)
  have u: "unbroken ''/mnt/media''" by (simp add: unbroken_def is_linebreak_def)
  from run have "generate_docker_compose failing_env DEFAULT_CONFIG ?w
      = (Inr compose_file, snd (generate_docker_compose failing_env DEFAULT_CONFIG ?w))"
    by (simp add: prod_eq_iff)
  from manifest_service_entries [OF this r a c] u show ?thesis
    by (simp add: py_str_def)
qed

section \<open>What loading returns\<close>

text \<open>
  C4 as stated fails: with a config file that holds only a \<open>wifi\<close> section the loaded
  document has no \<open>storage\<close>, \<open>apps\<close> or \<open>sync\<close> section; nothing is backfilled.
\<close>

theorem load_no_backfill_counterexample:
  "fst (load_config wifi_only_env wifi_only_world) = Inr (PDict 6)
   \<and> \<not> four_sections (snd (load_config wifi_only_env wifi_only_world)) (PDict 6)"
  by (simp add: load_config_def path_exists_def wifi_only_world_def wifi_only_env_def
      failing_env_def bnd_def read_text_def safe_load_def CONFIG_PATH_def initial_world_def
      module_heap_def four_sections_def subscript_def CR_def LF_def)

text \<open>
  C4, amended: when no config file exists, the loaded document has all four sections (it
  is a copy of the defaults); when the file exists and parses, the loaded document is
  exactly the parsed one, built from new objects, with no section added.
\<close>

theorem load_defaults_or_file:
  "(\<not> path_exists CONFIG_PATH w \<longrightarrow> four_sections w DEFAULT_CONFIG \<longrightarrow>
      (\<exists>cfg w'. load_config env w = (Inr cfg, w') \<and> four_sections w' cfg))
   \<and> (files w CONFIG_PATH = Some t \<longrightarrow> yaml_parse env (universal_newlines t) = Some y \<longrightarrow>
        load_config env w = (Inr (fst (alloc y (heap w))), w\<lparr>heap := snd (alloc y (heap w))\<rparr>))"
proof (intro conjI impI)
  assume nofile: "\<not> path_exists CONFIG_PATH w" and four: "four_sections w DEFAULT_CONFIG"
  from four have len: "4 < length (heap w)"
    by (auto simp: four_sections_def subscript_def DEFAULT_CONFIG_def split: if_splits)
  let ?w' = "w\<lparr>heap := heap w @ [heap w ! 4]\<rparr>"
  from nofile len have "load_config env w = (Inr (PDict (length (heap w))), ?w')"
    by (simp add: load_no_file dict_copy_def DEFAULT_CONFIG_def)
  moreover from four len have "four_sections ?w' (PDict (length (heap w)))"
    by (auto simp: four_sections_def subscript_def DEFAULT_CONFIG_def split: option.splits)
  ultimately show "\<exists>cfg w'. load_config env w = (Inr cfg, w') \<and> four_sections w' cfg"
    by blast
next
  assume "files w CONFIG_PATH = Some t" and "yaml_parse env (universal_newlines t) = Some y"
  then show "load_config env w = (Inr (fst (alloc y (heap w))), w\<lparr>heap := snd (alloc y (heap w))\<rparr>)"
    by (simp add: load_config_def path_exists_def bnd_def read_text_def safe_load_def
        split: prod.splits)
qed

theorem load_defaults_or_file_witness:
  "(\<exists>cfg w'. load_config failing_env initial_world = (Inr cfg, w') \<and> four_sections w' cfg)
   \<and> load_config wifi_only_env wifi_only_world
       = (Inr (PDict 6), wifi_only_world\<lparr>heap := module_heap @ [[], [(''wifi'', PDict 5)]]\<rparr>)"
proof -
  have four: "four_sections initial_world DEFAULT_CONFIG"
    by (simp add: four_sections_def subscript_def DEFAULT_CONFIG_def initial_world_def
        module_heap_def)
  have f: "files wifi_only_world CONFIG_PATH = Some ''wifi: {}''"
    by (simp add: wifi_only_world_def)
  have p: "yaml_parse wifi_only_env (universal_newlines ''wifi: {}'')
             = Some (YMap [(''wifi'', YMap [])])"
    by (simp add: wifi_only_env_def CR_def)
  have h: "heap wifi_only_world = module_heap"
    by (simp add: wifi_only_world_def initial_world_def)
  note t1 = load_defaults_or_file [where w = initial_world and env = failing_env,
      THEN conjunct1, rule_format, OF initial_no_config four]
  note t2 = load_defaults_or_file [where w = wifi_only_world and env = wifi_only_env,
      THEN conjunct2, rule_format, OF f p]
  from t1 t2 show ?thesis by (simp add: h module_heap_def)
qed

section \<open>Merging a submission into the document\<close>

lemma map_of_dict_set: "map_of (dict_set k v d) = (map_of d)(k \<mapsto> v)"
  by (induction d) (auto simp: fun_eq_iff)

lemma subscript_eq: "subscript v k w = (fst (subscript v k w), w)"
  using subscript_world [of v k w] by (simp add: prod_eq_iff)

lemma bnd_subscript:
  "bnd (subscript v k) g w = (case fst (subscript v k w) of Inl e \<Rightarrow> (Inl e, w) | Inr x \<Rightarrow> g x w)"
  using subscript_world [of v k w]
  by (cases "subscript v k w") (auto simp: bnd_def split: sum.splits)

lemma field_via_section:
  "field w cfg sec key =
     (case section_at w cfg sec of Inl e \<Rightarrow> Inl e | Inr d \<Rightarrow> fst (subscript d key w))"
  by (simp add: field_def subscript2_def bnd_subscript section_at_def split: sum.splits)

lemma fst_subscript:
  "fst (subscript v k w) =
     (case v of
        PDict a \<Rightarrow>
          (if a < length (heap w)
           then (case map_of (heap w ! a) k of Some x \<Rightarrow> Inr x | None \<Rightarrow> Inl (KeyError k))
           else Inl BadRef)
      | _ \<Rightarrow> Inl TypeError)"
  by (simp add: subscript_def split: pyval.splits option.splits)

lemma store_item_Inr:
  "store_item d key x w = (Inr (), w') \<longleftrightarrow>
     (\<exists>b. d = PDict b \<and> b < length (heap w)
          \<and> w' = w\<lparr>heap := (heap w)[b := dict_set key x (heap w ! b)]\<rparr>)"
  by (auto simp: store_item_def split: pyval.splits)

lemma store_item_section:
  assumes "store_item d key x w = (Inr (), w')" and "sec' \<noteq> key"
  shows "section_at w' r sec' = section_at w r sec'"
proof -
  from assms(1) obtain b where b: "b < length (heap w)"
    and w': "w' = w\<lparr>heap := (heap w)[b := dict_set key x (heap w ! b)]\<rparr>"
    by (auto simp: store_item_Inr)
  show ?thesis
  proof (cases r)
    case (PDict a)
    show ?thesis
    proof (cases "a = b")
      case True
      with PDict b w' assms(2) show ?thesis
        by (simp add: section_at_def fst_subscript map_of_dict_set)
    next
      case False
      with PDict b w' show ?thesis
        by (simp add: section_at_def fst_subscript)
    qed
  qed (simp_all add: section_at_def fst_subscript)
qed

lemma store_item_lookup:
  assumes "store_item d key x w = (Inr (), w')"
  shows "fst (subscript d' key' w') =
           (if d' = d \<and> key' = key then Inr x else fst (subscript d' key' w))"
proof -
  from assms obtain b where d: "d = PDict b" and b: "b < length (heap w)"
    and w': "w' = w\<lparr>heap := (heap w)[b := dict_set key x (heap w ! b)]\<rparr>"
    by (auto simp: store_item_Inr)
  show ?thesis
  proof (cases d')
    case (PDict a)
    show ?thesis
    proof (cases "a = b")
      case True
      with PDict d b w' show ?thesis
        by (simp add: fst_subscript map_of_dict_set)
    next
      case False
      with PDict d b w' show ?thesis
        by (simp add: fst_subscript)
    qed
  qed (simp_all add: fst_subscript d)
qed

lemma store_item_shape:
  assumes "store_item d key x w = (Inr (), w')"
  shows "\<exists>h'. w' = w\<lparr>heap := h'\<rparr> \<and> length h' = length (heap w)"
  using assms by (auto simp: store_item_Inr)

lemma store_item2_ok:
  assumes "field w cfg sec key = Inr v"
  shows "\<exists>d w'. section_at w cfg sec = Inr d \<and> store_item2 cfg sec key x w = (Inr (), w')
               \<and> store_item d key x w = (Inr (), w')"
proof -
  from assms obtain d where d: "section_at w cfg sec = Inr d" and l: "fst (subscript d key w) = Inr v"
    by (auto simp: field_via_section split: sum.splits)
  from l obtain b where "d = PDict b" "b < length (heap w)"
    by (auto simp: subscript_def split: pyval.splits if_splits)
  then obtain w' where s: "store_item d key x w = (Inr (), w')"
    by (auto simp: store_item_Inr)
  with d have "store_item2 cfg sec key x w = (Inr (), w')"
    by (simp add: store_item2_def bnd_subscript section_at_def)
  with d s show ?thesis by blast
qed

lemma store_item2_effect:
  assumes "field w cfg sec key = Inr v" and "sec \<noteq> key"
  shows "\<exists>w'. store_item2 cfg sec key x w = (Inr (), w')
            \<and> field w' cfg sec key = Inr x
            \<and> (\<forall>r sec'. sec' \<noteq> key \<longrightarrow> section_at w' r sec' = section_at w r sec')
            \<and> (\<forall>r sec' key'. sec' \<noteq> key \<longrightarrow> key' \<noteq> key \<longrightarrow>
                  field w' r sec' key' = field w r sec' key')
            \<and> (\<exists>h'. w' = w\<lparr>heap := h'\<rparr> \<and> length h' = length (heap w))"
proof -
  from store_item2_ok [OF assms(1)] obtain d w' where
    d: "section_at w cfg sec = Inr d" and
    s2: "store_item2 cfg sec key x w = (Inr (), w')" and
    s: "store_item d key x w = (Inr (), w')"
    by blast
  have sect: "section_at w' r sec' = section_at w r sec'" if "sec' \<noteq> key" for r sec'
    using s that by (rule store_item_section)
  note look = store_item_lookup [OF s]
  have f1: "field w' cfg sec key = Inr x"
  proof -
    from assms(2) have "section_at w' cfg sec = section_at w cfg sec" by (rule sect)
    with d have "section_at w' cfg sec = Inr d" by simp
    then show ?thesis by (simp add: field_via_section look)
  qed
  have f2: "field w' r sec' key' = field w r sec' key'"
    if "sec' \<noteq> key" and "key' \<noteq> key" for r sec' key'
  proof -
    from that(1) have e: "section_at w' r sec' = section_at w r sec'" by (rule sect)
    show ?thesis
      unfolding field_via_section e using that(2)
      by (cases "section_at w r sec'") (simp_all add: look)
  qed
  show ?thesis
  proof (intro exI [of _ w'] conjI allI impI)
    show "store_item2 cfg sec key x w = (Inr (), w')" by (rule s2)
  next
    show "field w' cfg sec key = Inr x" by (rule f1)
  next
    fix r sec' assume "sec' \<noteq> key"
    then show "section_at w' r sec' = section_at w r sec'" by (rule sect)
  next
    fix r sec' key' assume "sec' \<noteq> key" and "key' \<noteq> key"
    then show "field w' r sec' key' = field w r sec' key'" by (rule f2)
  next
    show "\<exists>h'. w' = w\<lparr>heap := h'\<rparr> \<and> length h' = length (heap w)"
      by (rule store_item_shape [OF s])
  qed
qed

lemma assign_as_store:
  assumes "field w cfg (fsec x) (fkey x) = Inr v"
  shows "\<exists>y. assign f cfg x w = store_item2 cfg (fsec x) (fkey x) y w
            \<and> merged_value f w cfg x = Inr y"
proof -
  obtain sec key name kind where x: "x = (sec, key, name, kind)" by (cases x)
  from assms have present: "field w cfg sec key = Inr v"
    by (simp add: x fsec_def fkey_def)
  then have read: "subscript2 cfg sec key w = (Inr v, w)"
    unfolding field_def by (rule subscript2_eq)
  show ?thesis
  proof (cases kind)
    case CheckboxField
    then show ?thesis
      by (simp add: x assign_def checkbox_def merged_value_def fsec_def fkey_def)
  next
    case TextField
    show ?thesis
    proof (cases "strip (form_get f name []) = []")
      case False
      with TextField show ?thesis
        by (simp add: x assign_def text_field_def bnd_def ret_def merged_value_def fsec_def fkey_def)
    next
      case True
      with TextField read present show ?thesis
        by (simp add: x assign_def text_field_def bnd_def merged_value_def fsec_def fkey_def)
    qed
  qed
qed

lemma assign_step:
  assumes "field w cfg (fsec x) (fkey x) = Inr v" and "fsec x \<noteq> fkey x"
  shows "\<exists>w'. assign f cfg x w = (Inr (), w')
            \<and> field w' cfg (fsec x) (fkey x) = merged_value f w cfg x
            \<and> (\<forall>r sec'. sec' \<noteq> fkey x \<longrightarrow> section_at w' r sec' = section_at w r sec')
            \<and> (\<forall>r sec' key'. sec' \<noteq> fkey x \<longrightarrow> key' \<noteq> fkey x \<longrightarrow>
                  field w' r sec' key' = field w r sec' key')
            \<and> (\<exists>h'. w' = w\<lparr>heap := h'\<rparr> \<and> length h' = length (heap w))"
proof -
  from assign_as_store [OF assms(1)] obtain y where
    a: "assign f cfg x w = store_item2 cfg (fsec x) (fkey x) y w"
    and m: "merged_value f w cfg x = Inr y"
    by blast
  from store_item2_effect [OF assms, of y] show ?thesis
    unfolding a m .
qed


lemma bnd_ret: "bnd m ret = m"
  by (auto simp: bnd_def ret_def fun_eq_iff split: prod.splits sum.splits)

lemma merge_form_assign_all: "merge_form f cfg = assign_all f cfg form_fields"
  by (simp add: merge_form_def form_fields_def assign_def bnd_ret)

lemma merged_value_cong:
  assumes "field w1 cfg (fsec y) (fkey y) = field w cfg (fsec y) (fkey y)"
  shows "merged_value f w1 cfg y = merged_value f w cfg y"
  using assms
  by (cases y) (simp add: merged_value_def fsec_def fkey_def split: field_kind.splits)

lemma assign_all_correct:
  assumes "distinct (map fkey fs)"
    and "\<forall>x\<in>set fs. \<forall>y\<in>set fs. fsec x \<noteq> fkey y"
    and "\<forall>x\<in>set fs. \<exists>v. field w cfg (fsec x) (fkey x) = Inr v"
  shows "\<exists>w'. assign_all f cfg fs w = (Inr (), w')
            \<and> (\<forall>x\<in>set fs. field w' cfg (fsec x) (fkey x) = merged_value f w cfg x)
            \<and> (\<forall>r sec'. sec' \<notin> fkey ` set fs \<longrightarrow> section_at w' r sec' = section_at w r sec')
            \<and> (\<forall>r sec' key'. sec' \<notin> fkey ` set fs \<longrightarrow> key' \<notin> fkey ` set fs \<longrightarrow>
                  field w' r sec' key' = field w r sec' key')
            \<and> (\<exists>h'. w' = w\<lparr>heap := h'\<rparr> \<and> length h' = length (heap w))"
  using assms
proof (induction fs arbitrary: w)
  case Nil
  have "w = w\<lparr>heap := heap w\<rparr>" by simp
  then have "\<exists>h'. w = w\<lparr>heap := h'\<rparr> \<and> length h' = length (heap w)" by blast
  then show ?case by (simp add: ret_def)
next
  case (Cons x xs)
  from Cons.prems(3) obtain v where present: "field w cfg (fsec x) (fkey x) = Inr v" by auto
  from Cons.prems(2) have ne: "fsec x \<noteq> fkey x" by simp
  from assign_step [OF present ne, of f] obtain w1 where
    a1: "assign f cfg x w = (Inr (), w1)" and
    f1: "field w1 cfg (fsec x) (fkey x) = merged_value f w cfg x" and
    s1: "\<And>r sec'. sec' \<noteq> fkey x \<Longrightarrow> section_at w1 r sec' = section_at w r sec'" and
    fr1: "\<And>r sec' key'. sec' \<noteq> fkey x \<Longrightarrow> key' \<noteq> fkey x \<Longrightarrow>
            field w1 r sec' key' = field w r sec' key'" and
    sh1: "\<exists>h'. w1 = w\<lparr>heap := h'\<rparr> \<and> length h' = length (heap w)"
    by blast
  have same: "field w1 cfg (fsec y) (fkey y) = field w cfg (fsec y) (fkey y)" if "y \<in> set xs" for y
  proof -
    from that Cons.prems(2) have "fsec y \<noteq> fkey x" by simp
    moreover from Cons.prems(1) have "fkey x \<notin> fkey ` set xs" by simp
    with that have "fkey y \<noteq> fkey x" by (metis imageI)
    ultimately show ?thesis by (rule fr1)
  qed
  have p1: "distinct (map fkey xs)" using Cons.prems(1) by simp
  have p2: "\<forall>a\<in>set xs. \<forall>b\<in>set xs. fsec a \<noteq> fkey b" using Cons.prems(2) by simp
  have p3: "\<forall>y\<in>set xs. \<exists>v. field w1 cfg (fsec y) (fkey y) = Inr v"
    using Cons.prems(3) same by simp
  from Cons.IH [OF p1 p2 p3] obtain w' where
    a2: "assign_all f cfg xs w1 = (Inr (), w')" and
    f2: "\<And>y. y \<in> set xs \<Longrightarrow> field w' cfg (fsec y) (fkey y) = merged_value f w1 cfg y" and
    s2: "\<And>r sec'. sec' \<notin> fkey ` set xs \<Longrightarrow> section_at w' r sec' = section_at w1 r sec'" and
    fr2: "\<And>r sec' key'. sec' \<notin> fkey ` set xs \<Longrightarrow> key' \<notin> fkey ` set xs \<Longrightarrow>
            field w' r sec' key' = field w1 r sec' key'" and
    sh2: "\<exists>h'. w' = w1\<lparr>heap := h'\<rparr> \<and> length h' = length (heap w1)"
    by blast
  show ?case
  proof (intro exI [of _ w'] conjI ballI allI impI)
    show "assign_all f cfg (x # xs) w = (Inr (), w')"
      using a1 a2 by (simp add: bnd_def)
  next
    fix y assume "y \<in> set (x # xs)"
    then consider "y = x" | "y \<in> set xs" by auto
    then show "field w' cfg (fsec y) (fkey y) = merged_value f w cfg y"
    proof cases
      case 1
      have "fsec x \<notin> fkey ` set xs" using Cons.prems(2) by auto
      moreover have "fkey x \<notin> fkey ` set xs" using Cons.prems(1) by auto
      ultimately have "field w' cfg (fsec x) (fkey x) = field w1 cfg (fsec x) (fkey x)"
        by (rule fr2)
      with f1 1 show ?thesis by simp
    next
      case 2
      then have "field w' cfg (fsec y) (fkey y) = merged_value f w1 cfg y" by (rule f2)
      also have "\<dots> = merged_value f w cfg y" using same [OF 2] by (rule merged_value_cong)
      finally show ?thesis .
    qed
  next
    fix r sec' assume "sec' \<notin> fkey ` set (x # xs)"
    then have "sec' \<noteq> fkey x" and "sec' \<notin> fkey ` set xs" by auto
    then show "section_at w' r sec' = section_at w r sec'" using s1 s2 by simp
  next
    fix r sec' key'
    assume "sec' \<notin> fkey ` set (x # xs)" and "key' \<notin> fkey ` set (x # xs)"
    then have "sec' \<noteq> fkey x" "sec' \<notin> fkey ` set xs" "key' \<noteq> fkey x" "key' \<notin> fkey ` set xs"
      by auto
    then show "field w' r sec' key' = field w r sec' key'" using fr1 fr2 by simp
  next
    from sh1 obtain h1 where "w1 = w\<lparr>heap := h1\<rparr>" "length h1 = length (heap w)" by blast
    moreover from sh2 obtain h2 where "w' = w1\<lparr>heap := h2\<rparr>" "length h2 = length (heap w1)"
      by blast
    ultimately have "w' = w\<lparr>heap := h2\<rparr> \<and> length h2 = length (heap w)" by simp
    then show "\<exists>h'. w' = w\<lparr>heap := h'\<rparr> \<and> length h' = length (heap w)" by blast
  qed
qed

lemma form_fields_distinct: "distinct (map fkey form_fields)"
  by (simp add: form_fields_def fkey_def)

lemma form_fields_sections: "\<forall>x\<in>set form_fields. \<forall>y\<in>set form_fields. fsec x \<noteq> fkey y"
  by (simp add: form_fields_def fkey_def fsec_def)

text \<open>
  C5: for every stored document that has the ten fields and every submission, the merge
  completes, and afterwards each of the seven text fields holds the trimmed submitted
  value when that is not empty and the stored value otherwise, and each of the three
  checkbox fields holds true if its name is among the submitted keys and false if not.
\<close>

theorem merge_overlays_form:
  assumes "\<forall>x\<in>set form_fields. \<exists>v. field w cfg (fsec x) (fkey x) = Inr v"
  shows "\<exists>w'. merge_form f cfg w = (Inr (), w')
            \<and> (\<forall>x\<in>set form_fields. field w' cfg (fsec x) (fkey x) = merged_value f w cfg x)"
  using assign_all_correct [OF form_fields_distinct form_fields_sections assms, of f]
  unfolding merge_form_assign_all by blast


lemma initial_fields_present:
  "\<forall>x\<in>set form_fields. \<exists>v. field initial_world DEFAULT_CONFIG (fsec x) (fkey x) = Inr v"
  by (simp add: form_fields_def fsec_def fkey_def field_def subscript2_def bnd_subscript
      fst_subscript DEFAULT_CONFIG_def initial_world_def module_heap_def)

theorem merge_overlays_form_witness:
  "\<exists>w'. merge_form [(''wifi_ssid'', ''  Home ''), (''install_calibre_web'', ''on'')]
           DEFAULT_CONFIG initial_world = (Inr (), w')
       \<and> field w' DEFAULT_CONFIG ''wifi'' ''ssid'' = Inr (PStr ''Home'')
       \<and> field w' DEFAULT_CONFIG ''wifi'' ''password'' = Inr (PStr ''lustybooks123'')
       \<and> field w' DEFAULT_CONFIG ''apps'' ''install_audiobookshelf'' = Inr (PBool False)
       \<and> field w' DEFAULT_CONFIG ''apps'' ''install_calibre_web'' = Inr (PBool True)"
proof -
  let ?f = "[(''wifi_ssid'', ''  Home ''), (''install_calibre_web'', ''on'')]"
  from merge_overlays_form [OF initial_fields_present, of ?f] obtain w' where
    m: "merge_form ?f DEFAULT_CONFIG initial_world = (Inr (), w')" and
    all: "\<forall>x\<in>set form_fields. field w' DEFAULT_CONFIG (fsec x) (fkey x)
            = merged_value ?f initial_world DEFAULT_CONFIG x"
    by blast
  have p: "field initial_world DEFAULT_CONFIG ''wifi'' ''password'' = Inr (PStr ''lustybooks123'')"
    by (simp add: field_def subscript2_def bnd_subscript fst_subscript DEFAULT_CONFIG_def
        initial_world_def module_heap_def)
  from all have
    "field w' DEFAULT_CONFIG ''wifi'' ''ssid'' = Inr (PStr ''Home'')"
    "field w' DEFAULT_CONFIG ''wifi'' ''password'' = Inr (PStr ''lustybooks123'')"
    "field w' DEFAULT_CONFIG ''apps'' ''install_audiobookshelf'' = Inr (PBool False)"
    "field w' DEFAULT_CONFIG ''apps'' ''install_calibre_web'' = Inr (PBool True)"
    by (simp_all add: form_fields_def fsec_def fkey_def merged_value_def form_get_def
        form_has_def strip_def py_isspace_def p)
  with m show ?thesis by blast
qed

section \<open>Programs that keep the object store\<close>

lemma keeps_heapD: "keeps_heap m \<Longrightarrow> heap (snd (m w)) = heap w"
  by (simp add: keeps_heap_def)

lemma keeps_heapI: "(\<And>w. heap (snd (m w)) = heap w) \<Longrightarrow> keeps_heap m"
  by (simp add: keeps_heap_def)

lemma keeps_heap_bnd: "keeps_heap m \<Longrightarrow> (\<And>x. keeps_heap (g x)) \<Longrightarrow> keeps_heap (bnd m g)"
proof (rule keeps_heapI)
  fix w
  assume m: "keeps_heap m" and g: "\<And>x. keeps_heap (g x)"
  obtain r w1 where mw: "m w = (r, w1)" by (cases "m w")
  with m have h1: "heap w1 = heap w" by (auto dest: keeps_heapD [of m w])
  show "heap (snd (bnd m g w)) = heap w"
  proof (cases r)
    case (Inl e)
    with mw h1 show ?thesis by (simp add: bnd_def)
  next
    case (Inr x)
    with mw have "bnd m g w = g x w1" by (simp add: bnd_def)
    with g [of x] h1 show ?thesis by (simp add: keeps_heapD)
  qed
qed

lemma keeps_heap_ret: "keeps_heap (ret x)"
  by (simp add: keeps_heap_def ret_def)

lemma keeps_heap_raise: "keeps_heap (raise e)"
  by (simp add: keeps_heap_def raise_def)

lemma keeps_heap_subscript2: "keeps_heap (subscript2 cfg sec key)"
  by (simp add: keeps_heap_def subscript2_world)

lemma keeps_heap_read_text: "keeps_heap (read_text p)"
  by (simp add: keeps_heap_def read_text_def split: option.splits)

lemma keeps_heap_write_text: "keeps_heap (write_text p t)"
  by (simp add: keeps_heap_def write_text_def)

lemma keeps_heap_mkdir_p: "keeps_heap (mkdir_p p)"
  by (simp add: keeps_heap_def mkdir_p_def)

lemma keeps_heap_chmod: "keeps_heap (chmod p m)"
  by (simp add: keeps_heap_def chmod_def)

lemma keeps_heap_try_run: "keeps_heap (try_run env cmd)"
  by (simp add: keeps_heap_def try_run_def split: outcome.splits)

lemma keeps_heap_make_subdir: "keeps_heap (make_subdir env v s)"
  by (cases v) (simp_all add: make_subdir_def keeps_heap_raise keeps_heap_mkdir_p)

lemma keeps_heap_url_for: "keeps_heap (url_for e)"
  by (simp add: url_for_def keeps_heap_ret keeps_heap_raise split: option.splits)

lemma keeps_heap_safe_dump: "keeps_heap (safe_dump env v p)"
proof (rule keeps_heapI)
  fix w
  show "heap (snd (safe_dump env v p w)) = heap w"
    by (cases "to_yaml (length (heap w)) (heap w) v")
       (simp_all add: safe_dump_def keeps_heapD [OF keeps_heap_write_text])
qed

lemma keeps_heap_save_config: "keeps_heap (save_config env cfg)"
  unfolding save_config_def
  by (intro keeps_heap_bnd keeps_heap_mkdir_p keeps_heap_write_text keeps_heap_safe_dump)

lemma keeps_heap_generate: "keeps_heap (generate_docker_compose env cfg)"
  unfolding generate_docker_compose_def
proof (intro keeps_heap_bnd keeps_heap_subscript2)
  fix media_root install_abs install_cweb
  show "keeps_heap (\<lambda>w.
       (bnd (mkdir_p compose_dir) (\<lambda>_.
        bnd (write_text compose_file
               (join [LF] (compose_lines (py_str env (heap w) media_root)
                                         (truthy (heap w) install_abs)
                                         (truthy (heap w) install_cweb)))) (\<lambda>_.
        bnd (make_subdir env media_root ''audiobooks'') (\<lambda>_.
        bnd (make_subdir env media_root ''books'') (\<lambda>_.
        bnd (make_subdir env media_root ''config'') (\<lambda>_.
        ret compose_file)))))) w)"
    by (rule keeps_heapI, rule keeps_heapD)
       (intro keeps_heap_bnd keeps_heap_mkdir_p keeps_heap_write_text keeps_heap_make_subdir
         keeps_heap_ret)
qed

lemma keeps_heap_apply_sync: "keeps_heap (apply_sync_config env cfg)"
  unfolding apply_sync_config_def
proof (intro keeps_heap_bnd keeps_heap_subscript2)
  fix enable_sync
  let ?body = "\<lambda>w0. bnd (subscript2 cfg ''storage'' ''media_root'') (\<lambda>media_root.
           bnd (subscript2 cfg ''sync'' ''unraid_ip'') (\<lambda>unraid_ip.
           bnd (subscript2 cfg ''sync'' ''share_path_audio'') (\<lambda>share_audio.
           bnd (subscript2 cfg ''sync'' ''share_path_books'') (\<lambda>share_books.
           bnd (write_text script_path
                  (sync_script (py_str env (heap w0) media_root)
                               (py_str env (heap w0) unraid_ip)
                               (py_str env (heap w0) share_audio)
                               (py_str env (heap w0) share_books))) (\<lambda>_.
           chmod script_path 493)))))"
  have body: "keeps_heap (?body w0)" for w0
    by (intro keeps_heap_bnd keeps_heap_subscript2 keeps_heap_write_text keeps_heap_chmod)
  show "keeps_heap (\<lambda>w. if \<not> truthy (heap w) enable_sync then (Inr (), w) else ?body w w)"
  proof (rule keeps_heapI)
    fix w
    show "heap (snd (if \<not> truthy (heap w) enable_sync then (Inr (), w) else ?body w w)) = heap w"
      using keeps_heapD [OF body, of w w] by simp
  qed
qed

lemma keeps_heap_apply_wifi: "keeps_heap (apply_wifi_config env cfg)"
  unfolding apply_wifi_config_def
proof (intro keeps_heap_bnd keeps_heap_subscript2)
  fix ssid password ip
  let ?h = "\<lambda>w0. bnd (read_text hostapd_conf) (\<lambda>text.
                  bnd (write_text hostapd_conf
                         (rewrite_hostapd (py_str env (heap w0) ssid)
                                          (py_str env (heap w0) password) text)) (\<lambda>_.
                  try_run env [''systemctl'', ''restart'', ''hostapd'']))"
  have h: "keeps_heap (?h w0)" for w0
    by (intro keeps_heap_bnd keeps_heap_read_text keeps_heap_write_text keeps_heap_try_run)
  show "keeps_heap (\<lambda>w. if path_exists hostapd_conf w then ?h w w else (Inr (), w))"
  proof (rule keeps_heapI)
    fix w
    show "heap (snd (if path_exists hostapd_conf w then ?h w w else (Inr (), w))) = heap w"
      using keeps_heapD [OF h, of w w] by simp
  qed
next
  fix ssid password ip
  fix u :: unit
  let ?d = "\<lambda>w0. bnd (read_text dhcpcd) (\<lambda>text.
              bnd (write_text dhcpcd (rewrite_dhcpcd (py_str env (heap w0) ip) text)) (\<lambda>_.
              try_run env [''systemctl'', ''restart'', ''dhcpcd'']))"
  have d: "keeps_heap (?d w0)" for w0
    by (intro keeps_heap_bnd keeps_heap_read_text keeps_heap_write_text keeps_heap_try_run)
  show "keeps_heap (\<lambda>w. if path_exists dhcpcd w then ?d w w else (Inr (), w))"
  proof (rule keeps_heapI)
    fix w
    show "heap (snd (if path_exists dhcpcd w then ?d w w else (Inr (), w))) = heap w"
      using keeps_heapD [OF d, of w w] by simp
  qed
qed

section \<open>A POST to the form\<close>

lemma setup_post:
  "setup_view env POST f =
     bnd (load_config env) (\<lambda>cfg. bnd (merge_form f cfg) (\<lambda>_. apply_and_redirect env cfg))"
  by (simp add: setup_view_def apply_and_redirect_def)

lemma keeps_heap_apply_and_redirect: "keeps_heap (apply_and_redirect env cfg)"
  unfolding apply_and_redirect_def
  by (intro keeps_heap_bnd keeps_heap_save_config keeps_heap_apply_wifi keeps_heap_generate
      keeps_heap_apply_sync keeps_heap_try_run keeps_heap_url_for keeps_heap_ret)

lemma try_run_outcome: "try_run (env\<lparr>subprocess_run := r\<rparr>) cmd = try_run env cmd"
  by (simp add: try_run_def fun_eq_iff split: outcome.splits)

lemma py_str_outcome: "py_str (env\<lparr>subprocess_run := r\<rparr>) = py_str env"
  by (simp add: py_str_def fun_eq_iff split: pyval.splits)

lemma safe_load_outcome: "safe_load (env\<lparr>subprocess_run := r\<rparr>) = safe_load env"
  by (simp add: safe_load_def fun_eq_iff)

lemma safe_dump_outcome: "safe_dump (env\<lparr>subprocess_run := r\<rparr>) = safe_dump env"
  by (simp add: safe_dump_def fun_eq_iff split: option.splits)

lemma make_subdir_outcome: "make_subdir (env\<lparr>subprocess_run := r\<rparr>) = make_subdir env"
  by (simp add: make_subdir_def fun_eq_iff split: pyval.splits)

lemma load_config_outcome: "load_config (env\<lparr>subprocess_run := r\<rparr>) = load_config env"
  by (simp add: load_config_def safe_load_outcome cong: if_cong)

lemma save_config_outcome:
  "save_config (env\<lparr>subprocess_run := r\<rparr>) cfg = save_config env cfg"
  by (simp add: save_config_def safe_dump_outcome)

lemma apply_wifi_outcome:
  "apply_wifi_config (env\<lparr>subprocess_run := r\<rparr>) cfg = apply_wifi_config env cfg"
  by (simp add: apply_wifi_config_def try_run_outcome py_str_outcome cong: if_cong)

lemma generate_outcome:
  "generate_docker_compose (env\<lparr>subprocess_run := r\<rparr>) cfg = generate_docker_compose env cfg"
  by (simp add: generate_docker_compose_def make_subdir_outcome py_str_outcome)

lemma apply_sync_outcome:
  "apply_sync_config (env\<lparr>subprocess_run := r\<rparr>) cfg = apply_sync_config env cfg"
  by (simp add: apply_sync_config_def py_str_outcome cong: if_cong)

lemma setup_post_outcome:
  "setup_view (env\<lparr>subprocess_run := r\<rparr>) POST f = setup_view env POST f"
  by (simp add: setup_post apply_and_redirect_def load_config_outcome save_config_outcome
      apply_wifi_outcome generate_outcome apply_sync_outcome try_run_outcome)

lemma setup_post_Inr:
  "setup_view env POST f w = (Inr resp, w') \<Longrightarrow> resp = Redirect ''/setup''"
  by (auto simp: setup_post apply_and_redirect_def bnd_Inr url_for_def ret_def)

lemma appliance_post:
  "fst (setup_view failing_env POST [] appliance_world) = Inr (Redirect ''/setup'')"
  by code_simp

text \<open>
  C1: whenever a POST to \<open>/setup\<close> completes under some outcomes of the external
  commands, that is, no exception leaves loading, merging, persisting or the three
  writers, then under every other outcome of the commands (a non-zero exit status or a
  failure to start, for the service restarts and for the stack bring-up) it completes as
  well, with the same effects, and the response is the redirect to \<open>/setup\<close>.
\<close>

theorem post_redirects:
  assumes "setup_view env POST f w = (Inr resp, w')"
  shows "setup_view (env\<lparr>subprocess_run := r\<rparr>) POST f w = (Inr (Redirect ''/setup''), w')"
  using assms setup_post_Inr [OF assms] by (simp add: setup_post_outcome)

theorem post_redirects_witness:
  "setup_view (failing_env\<lparr>subprocess_run := exit_one\<rparr>) POST [] appliance_world
     = (Inr (Redirect ''/setup''), snd (setup_view failing_env POST [] appliance_world))"
proof -
  from appliance_post have
    "setup_view failing_env POST [] appliance_world
       = (Inr (Redirect ''/setup''), snd (setup_view failing_env POST [] appliance_world))"
    by (simp add: prod_eq_iff)
  then show ?thesis by (rule post_redirects)
qed

section \<open>Fields, sections and copies\<close>

lemma fst_subscript_heap:
  "heap w1 = heap w \<Longrightarrow> fst (subscript d k w1) = fst (subscript d k w)"
  by (cases d) (simp_all add: fst_subscript)

lemma field_heap:
  assumes "heap w1 = heap w"
  shows "field w1 r sec key = field w r sec key"
proof -
  note e = fst_subscript_heap [OF assms]
  have s: "section_at w1 r sec = section_at w r sec"
    by (simp add: section_at_def e)
  show ?thesis
    unfolding field_via_section s
    by (cases "section_at w r sec") (simp_all add: e)
qed

lemma field_root_valid: "field w (PDict a) sec key = Inr v \<Longrightarrow> a < length (heap w)"
  by (simp add: field_via_section section_at_def fst_subscript split: if_splits)

lemma field_same_section:
  "section_at w r sec = section_at w r' sec \<Longrightarrow> field w r sec key = field w r' sec key"
  by (simp add: field_via_section)

lemma fst_subscript_ext:
  assumes "fst (subscript d k w) = Inr v" and "heap w1 = heap w @ ext"
  shows "fst (subscript d k w1) = Inr v"
  using assms
  by (cases d) (auto simp: fst_subscript nth_append split: if_splits option.splits)

lemma field_ext:
  assumes "field w r sec key = Inr v" and "heap w1 = heap w @ ext"
  shows "field w1 r sec key = Inr v"
proof -
  from assms(1) obtain d where d: "section_at w r sec = Inr d" and l: "fst (subscript d key w) = Inr v"
    by (auto simp: field_via_section split: sum.splits)
  from d assms(2) have "section_at w1 r sec = Inr d"
    unfolding section_at_def by (rule fst_subscript_ext)
  moreover from l assms(2) have "fst (subscript d key w1) = Inr v" by (rule fst_subscript_ext)
  ultimately show ?thesis by (simp add: field_via_section)
qed

lemma section_copy:
  assumes "a < length (heap w)" and "heap w1 = heap w @ [heap w ! a]"
  shows "section_at w1 (PDict (length (heap w))) sec = section_at w1 (PDict a) sec"
  using assms by (simp add: section_at_def fst_subscript nth_append)

lemma merged_value_Inr:
  assumes "field w cfg (fsec x) (fkey x) = Inr v"
  shows "\<exists>y. merged_value f w cfg x = Inr y"
  using assms
  by (cases x) (simp add: merged_value_def fsec_def fkey_def split: field_kind.splits)

lemma merged_value_cong2:
  assumes "field w1 cfg1 (fsec y) (fkey y) = field w cfg (fsec y) (fkey y)"
  shows "merged_value f w1 cfg1 y = merged_value f w cfg y"
  using assms
  by (cases y) (simp add: merged_value_def fsec_def fkey_def split: field_kind.splits)

lemma load_copy:
  assumes "\<not> path_exists CONFIG_PATH w" and "4 < length (heap w)"
  shows "load_config env w = (Inr (PDict (length (heap w))), w\<lparr>heap := heap w @ [heap w ! 4]\<rparr>)"
  using assms by (simp add: load_no_file dict_copy_def DEFAULT_CONFIG_def)

lemma copy_fields:
  assumes "field w DEFAULT_CONFIG sec key = Inr v"
  shows "field (w\<lparr>heap := heap w @ [heap w ! 4]\<rparr>) (PDict (length (heap w))) sec key = Inr v"
proof -
  let ?w1 = "w\<lparr>heap := heap w @ [heap w ! 4]\<rparr>"
  have h1: "heap ?w1 = heap w @ [heap w ! 4]" by simp
  from assms have len: "4 < length (heap w)"
    unfolding DEFAULT_CONFIG_def by (rule field_root_valid)
  from len h1 have "section_at ?w1 (PDict (length (heap w))) sec = section_at ?w1 (PDict 4) sec"
    by (rule section_copy)
  then have "field ?w1 (PDict (length (heap w))) sec key = field ?w1 DEFAULT_CONFIG sec key"
    unfolding DEFAULT_CONFIG_def by (rule field_same_section)
  also from assms h1 have "\<dots> = Inr v" by (rule field_ext)
  finally show ?thesis .
qed

section \<open>The defaults are shared with the loaded document\<close>

lemma readonly_fields_present:
  "\<forall>x\<in>set form_fields. \<exists>v. field readonly_world DEFAULT_CONFIG (fsec x) (fkey x) = Inr v"
  by (simp add: form_fields_def fsec_def fkey_def field_def subscript2_def bnd_subscript
      fst_subscript DEFAULT_CONFIG_def readonly_world_def initial_world_def module_heap_def)

lemma readonly_no_config: "\<not> path_exists CONFIG_PATH readonly_world"
  by (simp add: path_exists_def readonly_world_def initial_world_def)

lemma readonly_still_no_config:
  "\<not> path_exists CONFIG_PATH (snd (setup_view failing_env POST guest_form readonly_world))"
  by code_simp

text \<open>
  C10: when no config file exists and the defaults hold the ten fields, loading returns a
  new dictionary with the items of the module-level default dictionary, so its four
  sections are the very section objects of the defaults; the assignments of a POST
  therefore change the defaults, and when there is still no config file after the request
  (persisting failed, say), the next load returns, field by field, the values merged from
  the submission rather than the former defaults.
\<close>

theorem post_mutates_defaults:
  assumes nofile: "\<not> path_exists CONFIG_PATH w"
    and present: "\<forall>x\<in>set form_fields. \<exists>v. field w DEFAULT_CONFIG (fsec x) (fkey x) = Inr v"
    and run: "setup_view env POST f w = (r, w')"
    and still: "\<not> path_exists CONFIG_PATH w'"
  shows "load_config env w
           = (Inr (PDict (length (heap w))), w\<lparr>heap := heap w @ [heap w ! 4]\<rparr>)
       \<and> (\<exists>cfg' w''. load_config env w' = (Inr cfg', w'')
             \<and> (\<forall>x\<in>set form_fields.
                   field w'' cfg' (fsec x) (fkey x) = merged_value f w DEFAULT_CONFIG x))"
proof -
  let ?cfg = "PDict (length (heap w))"
  let ?w1 = "w\<lparr>heap := heap w @ [heap w ! 4]\<rparr>"
  have first: "(''wifi'', ''ssid'', ''wifi_ssid'', TextField) \<in> set form_fields"
    by (simp add: form_fields_def)
  with present obtain v0 where "field w DEFAULT_CONFIG ''wifi'' ''ssid'' = Inr v0"
    by (force simp: fsec_def fkey_def)
  then have len: "4 < length (heap w)"
    unfolding DEFAULT_CONFIG_def by (rule field_root_valid)
  from nofile len have load1: "load_config env w = (Inr ?cfg, ?w1)" by (rule load_copy)
  have c1: "field ?w1 ?cfg (fsec x) (fkey x) = field w DEFAULT_CONFIG (fsec x) (fkey x)"
    if "x \<in> set form_fields" for x
  proof -
    from that present obtain v where v: "field w DEFAULT_CONFIG (fsec x) (fkey x) = Inr v" by blast
    from copy_fields [OF v] v show ?thesis by simp
  qed
  have p1: "\<forall>x\<in>set form_fields. \<exists>v. field ?w1 ?cfg (fsec x) (fkey x) = Inr v"
    using c1 present by simp
  from assign_all_correct [OF form_fields_distinct form_fields_sections p1, of f]
  obtain w2 where
    m: "merge_form f ?cfg ?w1 = (Inr (), w2)" and
    f2: "\<And>x. x \<in> set form_fields \<Longrightarrow>
           field w2 ?cfg (fsec x) (fkey x) = merged_value f ?w1 ?cfg x" and
    s2: "\<And>r sec'. sec' \<notin> fkey ` set form_fields \<Longrightarrow>
           section_at w2 r sec' = section_at ?w1 r sec'"
    unfolding merge_form_assign_all by blast
  have d2: "field w2 DEFAULT_CONFIG (fsec x) (fkey x) = merged_value f w DEFAULT_CONFIG x"
    if x: "x \<in> set form_fields" for x
  proof -
    from x form_fields_sections have nk: "fsec x \<notin> fkey ` set form_fields" by blast
    have h1: "heap ?w1 = heap w @ [heap w ! 4]" by simp
    have "section_at w2 DEFAULT_CONFIG (fsec x) = section_at ?w1 DEFAULT_CONFIG (fsec x)"
      using nk by (rule s2)
    also have "\<dots> = section_at ?w1 ?cfg (fsec x)"
      unfolding DEFAULT_CONFIG_def using section_copy [OF len h1] by simp
    also have "\<dots> = section_at w2 ?cfg (fsec x)"
      using s2 [OF nk] by simp
    finally have "field w2 DEFAULT_CONFIG (fsec x) (fkey x) = field w2 ?cfg (fsec x) (fkey x)"
      by (rule field_same_section)
    also have "\<dots> = merged_value f ?w1 ?cfg x" using x by (rule f2)
    also have "\<dots> = merged_value f w DEFAULT_CONFIG x"
      using c1 [OF x] by (rule merged_value_cong2)
    finally show ?thesis .
  qed
  from run load1 m have rest: "apply_and_redirect env ?cfg w2 = (r, w')"
    by (simp add: setup_post bnd_def)
  have "heap (snd (apply_and_redirect env ?cfg w2)) = heap w2"
    using keeps_heap_apply_and_redirect by (rule keeps_heapD)
  with rest have hw': "heap w' = heap w2" by simp
  have d': "field w' DEFAULT_CONFIG (fsec x) (fkey x) = merged_value f w DEFAULT_CONFIG x"
    if "x \<in> set form_fields" for x
    using field_heap [OF hw'] d2 [OF that] by simp
  let ?cfg' = "PDict (length (heap w'))"
  let ?w'' = "w'\<lparr>heap := heap w' @ [heap w' ! 4]\<rparr>"
  have mv: "\<exists>y. merged_value f w DEFAULT_CONFIG x = Inr y" if "x \<in> set form_fields" for x
  proof -
    from that present obtain v where "field w DEFAULT_CONFIG (fsec x) (fkey x) = Inr v" by blast
    then show ?thesis by (rule merged_value_Inr)
  qed
  from mv [OF first] d' [OF first] obtain y0 where
    "field w' DEFAULT_CONFIG (fsec (''wifi'', ''ssid'', ''wifi_ssid'', TextField))
       (fkey (''wifi'', ''ssid'', ''wifi_ssid'', TextField)) = Inr y0"
    by auto
  then have len': "4 < length (heap w')"
    unfolding DEFAULT_CONFIG_def by (rule field_root_valid)
  from still len' have load2: "load_config env w' = (Inr ?cfg', ?w'')" by (rule load_copy)
  have final: "field ?w'' ?cfg' (fsec x) (fkey x) = merged_value f w DEFAULT_CONFIG x"
    if x: "x \<in> set form_fields" for x
  proof -
    from mv [OF x] obtain y where y: "merged_value f w DEFAULT_CONFIG x = Inr y" by blast
    with d' [OF x] have "field w' DEFAULT_CONFIG (fsec x) (fkey x) = Inr y" by simp
    from copy_fields [OF this] y show ?thesis by simp
  qed
  from load1 load2 final show ?thesis by blast
qed

theorem post_mutates_defaults_witness:
  "\<exists>cfg' w''. load_config failing_env (snd (setup_view failing_env POST guest_form readonly_world))
                  = (Inr cfg', w'')
             \<and> field w'' cfg' ''wifi'' ''ssid'' = Inr (PStr ''Guest'')"
proof -
  let ?w' = "snd (setup_view failing_env POST guest_form readonly_world)"
  have run: "setup_view failing_env POST guest_form readonly_world
               = (fst (setup_view failing_env POST guest_form readonly_world), ?w')"
    by simp
  from post_mutates_defaults [OF readonly_no_config readonly_fields_present run
      readonly_still_no_config]
  obtain cfg' w'' where
    l: "load_config failing_env ?w' = (Inr cfg', w'')" and
    all: "\<forall>x\<in>set form_fields. field w'' cfg' (fsec x) (fkey x)
            = merged_value guest_form readonly_world DEFAULT_CONFIG x"
    by blast
  from all have "field w'' cfg' ''wifi'' ''ssid'' = Inr (PStr ''Guest'')"
    by (simp add: form_fields_def fsec_def fkey_def merged_value_def guest_form_def form_get_def
        strip_def py_isspace_def)
  with l show ?thesis by blast
qed

section \<open>Saving and loading\<close>





























end
